theory Spec2Isabelle
  imports Complex_Main "HOL-Library.Sublist" "HOL-Library.Word"
begin

section \<open>Python text and bytes\<close>

text \<open>
  A Python \<^verbatim>\<open>str\<close> is a sequence of Unicode code points and a \<^verbatim>\<open>bytes\<close> object a
  sequence of octets. The string constants of \<^verbatim>\<open>mullvad.py\<close> are all ASCII; \<open>str\<close>
  turns a literal into code points.
\<close>

type_synonym pystr = "nat list"

type_synonym bytes = "8 word list"

definition str :: "string \<Rightarrow> pystr" where
  "str cs = map of_char cs"

text \<open>
  \<^verbatim>\<open>b.decode("utf-8")\<close> with the default strict error handler: well-formed UTF-8
  only (no overlong forms, no surrogates, nothing above U+10FFFF). \<open>None\<close> stands for
  \<^verbatim>\<open>UnicodeDecodeError\<close>.
\<close>

definition continuation :: "nat \<Rightarrow> bool" where
  "continuation b \<longleftrightarrow> 128 \<le> b \<and> b < 192"

fun utf8 :: "nat list \<Rightarrow> pystr option" where
  "utf8 [] = Some []"
| "utf8 (a # bs) =
     (if a < 128 then map_option ((#) a) (utf8 bs)
      else if 194 \<le> a \<and> a < 224 then
        (case bs of
           b # r \<Rightarrow>
             if continuation b
             then map_option ((#) ((a - 192) * 64 + (b - 128))) (utf8 r)
             else None
         | _ \<Rightarrow> None)
      else if 224 \<le> a \<and> a < 240 then
        (case bs of
           b # c # r \<Rightarrow>
             if continuation b \<and> continuation c
                \<and> (a = 224 \<longrightarrow> 160 \<le> b) \<and> (a = 237 \<longrightarrow> b < 160)
             then map_option
                    ((#) (((a - 224) * 64 + (b - 128)) * 64 + (c - 128))) (utf8 r)
             else None
         | _ \<Rightarrow> None)
      else if 240 \<le> a \<and> a < 245 then
        (case bs of
           b # c # d # r \<Rightarrow>
             if continuation b \<and> continuation c \<and> continuation d
                \<and> (a = 240 \<longrightarrow> 144 \<le> b) \<and> (a = 244 \<longrightarrow> b < 144)
             then map_option
                    ((#) ((((a - 240) * 64 + (b - 128)) * 64 + (c - 128)) * 64 + (d - 128)))
                    (utf8 r)
             else None
         | _ \<Rightarrow> None)
      else None)"

definition decode :: "bytes \<Rightarrow> pystr option" where
  "decode bs = utf8 (map unat bs)"

text \<open>The inverse direction for ASCII text, used to write down what a process prints.\<close>

definition ascii :: "string \<Rightarrow> bytes" where
  "ascii cs = map of_char cs"

text \<open>
  \<^verbatim>\<open>str.isspace\<close> on one code point; these are the code points that
  \<^verbatim>\<open>str.strip()\<close> removes from both ends.
\<close>

definition isspace :: "nat \<Rightarrow> bool" where
  "isspace c \<longleftrightarrow>
     (9 \<le> c \<and> c \<le> 13) \<or> (28 \<le> c \<and> c \<le> 32) \<or> c = 133 \<or> c = 160 \<or> c = 5760
     \<or> (8192 \<le> c \<and> c \<le> 8202) \<or> c = 8232 \<or> c = 8233 \<or> c = 8239 \<or> c = 8287
     \<or> c = 12288"

definition strip :: "pystr \<Rightarrow> pystr" where
  "strip s = rev (dropWhile isspace (rev (dropWhile isspace s)))"

text \<open>
  \<^verbatim>\<open>s.split(sep)\<close> for a separator of one code point, which is how both call sites
  use it (\<^verbatim>\<open>"\n"\<close> and \<^verbatim>\<open>":"\<close>). The result is never empty.
\<close>

fun split :: "nat \<Rightarrow> pystr \<Rightarrow> pystr list" where
  "split sep [] = [[]]"
| "split sep (c # cs) =
     (if c = sep then [] # split sep cs
      else (case split sep cs of
              p # ps \<Rightarrow> (c # p) # ps
            | [] \<Rightarrow> [[c]]))"

text \<open>\<^verbatim>\<open>needle in hay\<close> on strings: \<open>needle\<close> occurs as a contiguous run of \<open>hay\<close>.\<close>

fun contains :: "pystr \<Rightarrow> pystr \<Rightarrow> bool" where
  "contains needle [] = (needle = [])"
| "contains needle (c # cs) = (prefix needle (c # cs) \<or> contains needle cs)"

text \<open>What an f-string puts in place of \<^verbatim>\<open>{x}\<close> for a string or \<^verbatim>\<open>None\<close>.\<close>

fun fmt :: "pystr option \<Rightarrow> pystr" where
  "fmt None = str ''None''"
| "fmt (Some s) = s"

text \<open>Truth value of a string or \<^verbatim>\<open>None\<close> in a condition (\<^verbatim>\<open>if server:\<close>).\<close>

fun truthy :: "pystr option \<Rightarrow> bool" where
  "truthy None = False"
| "truthy (Some s) = (s \<noteq> [])"

text \<open>
  Universal newlines, as \<^verbatim>\<open>subprocess\<close> applies them to text it has decoded:
  \<^verbatim>\<open>"\r\n"\<close> and a lone \<^verbatim>\<open>"\r"\<close> both become \<^verbatim>\<open>"\n"\<close>.
\<close>

fun translate_newlines :: "pystr \<Rightarrow> pystr" where
  "translate_newlines [] = []"
| "translate_newlines (c # cs) =
     (if c = 13 then
        (case cs of
           d # ds \<Rightarrow> if d = 10 then 10 # translate_newlines ds else 10 # translate_newlines cs
         | [] \<Rightarrow> [10])
      else c # translate_newlines cs)"

section \<open>The operating system, the interpreter and the exceptions\<close>

text \<open>
  Everything the class does goes through \<^verbatim>\<open>subprocess\<close>. A request names the
  argument vector and says whether stderr is redirected into stdout. Its outcome is one
  of three: the arguments are refused before any process is created (an argument with an
  embedded NUL, or one that the file system encoding cannot encode); the program cannot
  be launched; or the process runs and leaves an exit status and the captured bytes of
  stdout and stderr. The trace records, in order, every such request together with its
  outcome, every \<^verbatim>\<open>time.sleep\<close> and every \<^verbatim>\<open>print\<close>. The host answers a request
  from the whole history, so a later status query may see the effect of earlier commands
  and of elapsed time.
\<close>

datatype request = Popen (argv: "pystr list") (stderr_to_stdout: bool)

datatype refusal = EmbeddedNull | Unencodable

datatype outcome = Refused refusal | LaunchFailed | Exited int bytes bytes

datatype event = Spawn request outcome | Sleep rat | Print pystr

type_synonym trace = "event list"

type_synonym host = "trace \<Rightarrow> request \<Rightarrow> outcome"

text \<open>
  The exceptions that can leave the methods modelled here. \<open>OSError\<close> stands for the
  failure of \<^verbatim>\<open>Popen\<close> to start the program (\<^verbatim>\<open>FileNotFoundError\<close>,
  \<^verbatim>\<open>PermissionError\<close>, ...). A refused request raises \<^verbatim>\<open>ValueError\<close> for an embedded
  NUL and \<^verbatim>\<open>UnicodeEncodeError\<close> for an argument that cannot be encoded.
\<close>

datatype exn =
  OSError | CalledProcessError | UnicodeDecodeError | UnicodeEncodeError | IndexError
  | ValueError

fun refusal_error :: "refusal \<Rightarrow> exn" where
  "refusal_error EmbeddedNull = ValueError"
| "refusal_error Unencodable = UnicodeEncodeError"

text \<open>The exceptions that \<^verbatim>\<open>run_command\<close> can raise.\<close>

abbreviation run_error :: "exn \<Rightarrow> bool" where
  "run_error e \<equiv>
     e = ValueError \<or> e = UnicodeEncodeError \<or> e = OSError \<or> e = UnicodeDecodeError"

text \<open>
  \<^verbatim>\<open>subprocess.run(command, shell=True, ...)\<close> with a string command starts
  \<^verbatim>\<open>/bin/sh -c command\<close> (POSIX).
\<close>

definition shell :: "pystr \<Rightarrow> request" where
  "shell command = Popen [str ''/bin/sh'', str ''-c'', command] False"

text \<open>
  What the interpreter brings with it and the source does not fix: the decoder of the
  locale's preferred encoding, which \<^verbatim>\<open>subprocess\<close> uses in text mode; the decimal digit
  value that the Unicode database assigns to a code point outside ASCII, if any; and
  \<^verbatim>\<open>sys.get_int_max_str_digits()\<close>, where 0 switches the limit off.
\<close>

record interpreter =
  locale_decode :: "bytes \<Rightarrow> pystr option"
  todecimal :: "nat \<Rightarrow> nat option"
  int_max_str_digits :: nat

text \<open>
  What \<^verbatim>\<open>get_account_number\<close> can return: \<^verbatim>\<open>False\<close> or an integer.
\<close>

datatype pyvalue = PyFalse | PyInt int

section \<open>Indexing and \<^verbatim>\<open>int\<close>\<close>

text \<open>
  \<^verbatim>\<open>xs[i]\<close> for an index that is not negative: out of range raises \<^verbatim>\<open>IndexError\<close>.
\<close>

definition index :: "'a list \<Rightarrow> nat \<Rightarrow> exn + 'a" where
  "index xs i = (if i < length xs then Inr (xs ! i) else Inl IndexError)"

text \<open>
  \<^verbatim>\<open>int(s)\<close> on a string, base 10. Code points outside ASCII are first replaced: white
  space by a blank and decimal digits by their ASCII digit; any other one makes the
  literal invalid. What remains must be optional white space (\<open>int_space\<close>, the C
  locale's), an optional sign, digits with single underscores allowed between them, and
  optional white space. More digits than the interpreter's limit (which only applies
  above 640 digits) are refused. Every failure is a \<^verbatim>\<open>ValueError\<close>.
\<close>

definition int_space :: "nat \<Rightarrow> bool" where
  "int_space c \<longleftrightarrow> (9 \<le> c \<and> c \<le> 13) \<or> c = 32"

definition is_digit :: "nat \<Rightarrow> bool" where
  "is_digit c \<longleftrightarrow> 48 \<le> c \<and> c \<le> 57"

fun to_ascii :: "(nat \<Rightarrow> nat option) \<Rightarrow> pystr \<Rightarrow> pystr option" where
  "to_ascii dec [] = Some []"
| "to_ascii dec (c # cs) =
     (if c < 127 then map_option ((#) c) (to_ascii dec cs)
      else if isspace c then map_option ((#) 32) (to_ascii dec cs)
      else (case dec c of
              None \<Rightarrow> None
            | Some d \<Rightarrow> map_option ((#) (48 + d)) (to_ascii dec cs)))"

definition decimal_value :: "pystr \<Rightarrow> int" where
  "decimal_value ds = foldl (\<lambda>acc d. 10 * acc + int (d - 48)) 0 ds"

definition py_int :: "interpreter \<Rightarrow> pystr \<Rightarrow> exn + int" where
  "py_int py s =
     (case to_ascii (todecimal py) s of
        None \<Rightarrow> Inl ValueError
      | Some a \<Rightarrow>
          (let b = dropWhile int_space a;
               negative = (b \<noteq> [] \<and> hd b = 45);
               c = (if b \<noteq> [] \<and> (hd b = 43 \<or> hd b = 45) then tl b else b);
               body = takeWhile (\<lambda>x. is_digit x \<or> x = 95) c;
               rest = dropWhile (\<lambda>x. is_digit x \<or> x = 95) c;
               digits = filter is_digit body
           in if body = [] \<or> hd body = 95 \<or> last body = 95 \<or> contains [95, 95] body
              then Inl ValueError
              else if 640 < length digits \<and> 0 < int_max_str_digits py
                      \<and> int_max_str_digits py < length digits
              then Inl ValueError
              else if \<not> list_all int_space rest then Inl ValueError
              else Inr ((if negative then - 1 else 1) * decimal_value digits)))"

section \<open>The class \<^verbatim>\<open>Mullvad\<close>\<close>

text \<open>
  \<^verbatim>\<open>subprocess.check_output(args, stderr=subprocess.STDOUT, universal_newlines=True)\<close>:
  the program is started directly, without a shell; the captured output is decoded and
  its newlines translated; only then a non-zero exit status raises
  \<^verbatim>\<open>CalledProcessError\<close>.
\<close>

definition check_output ::
  "interpreter \<Rightarrow> host \<Rightarrow> pystr list \<Rightarrow> trace \<Rightarrow> (exn + pystr) \<times> trace" where
  "check_output py os args t =
     (let process = os t (Popen args True);
          t' = t @ [Spawn (Popen args True) process]
      in case process of
           Refused why \<Rightarrow> (Inl (refusal_error why), t')
         | LaunchFailed \<Rightarrow> (Inl OSError, t')
         | Exited returncode out err \<Rightarrow>
             (case locale_decode py out of
                None \<Rightarrow> (Inl UnicodeDecodeError, t')
              | Some stdout \<Rightarrow>
                  if returncode \<noteq> 0 then (Inl CalledProcessError, t')
                  else (Inr (translate_newlines stdout), t')))"

text \<open>
  Lines 24 to 26 of \<^verbatim>\<open>get_account_number\<close>: the text after the first colon of the first
  line of the stripped output, up to the next colon if there is one, stripped and read as
  an integer.
\<close>

definition parse_account_output :: "interpreter \<Rightarrow> pystr \<Rightarrow> exn + int" where
  "parse_account_output py output =
     (let result = strip output
      in case index (split 10 result) 0 of
           Inl e \<Rightarrow> Inl e
         | Inr result \<Rightarrow>
             (case index (split 58 result) 1 of
                Inl e \<Rightarrow> Inl e
              | Inr field \<Rightarrow> py_int py (strip field)))"

text \<open>
  \<^verbatim>\<open>get_account_number\<close>: only \<^verbatim>\<open>CalledProcessError\<close> is caught, and turned into a
  printed message and the value \<^verbatim>\<open>False\<close>; every other exception leaves the method.
\<close>

definition get_account_number :: "interpreter \<Rightarrow> host \<Rightarrow> trace \<Rightarrow> (exn + pyvalue) \<times> trace" where
  "get_account_number py os t =
     (case check_output py os [str ''mullvad'', str ''account'', str ''get''] t of
        (Inl e, t1) \<Rightarrow>
          if e = CalledProcessError
          then (Inr PyFalse, t1 @ [Print (str ''Mullvad VPN CLI tool not available.'')])
          else (Inl e, t1)
      | (Inr output, t1) \<Rightarrow>
          (case parse_account_output py output of
             Inl e \<Rightarrow> (Inl e, t1)
           | Inr n \<Rightarrow> (Inr (PyInt n), t1)))"

text \<open>
  \<^verbatim>\<open>run_command\<close>: whatever \<^verbatim>\<open>subprocess.run\<close> raises leaves the method; the exit
  status of the process is not looked at; both captured streams are decoded as UTF-8.
\<close>

definition run_command :: "host \<Rightarrow> pystr \<Rightarrow> trace \<Rightarrow> (exn + pystr \<times> pystr) \<times> trace" where
  "run_command os command t =
     (let process = os t (shell command);
          t' = t @ [Spawn (shell command) process]
      in case process of
           Refused why \<Rightarrow> (Inl (refusal_error why), t')
         | LaunchFailed \<Rightarrow> (Inl OSError, t')
         | Exited returncode out err \<Rightarrow>
             (case decode out of
                None \<Rightarrow> (Inl UnicodeDecodeError, t')
              | Some stdout \<Rightarrow>
                  (case decode err of
                     None \<Rightarrow> (Inl UnicodeDecodeError, t')
                   | Some stderr \<Rightarrow> (Inr (stdout, stderr), t'))))"

definition set_relay_location ::
  "host \<Rightarrow> pystr \<Rightarrow> pystr option \<Rightarrow> pystr option \<Rightarrow> trace \<Rightarrow> (exn + pystr \<times> pystr) \<times> trace" where
  "set_relay_location os country city server t =
     (if truthy server then
        run_command os
          (str ''mullvad relay set location '' @ country @ str '' '' @ fmt city
             @ str '' '' @ fmt server) t
      else if truthy city then
        run_command os (str ''mullvad relay set location '' @ country @ str '' '' @ fmt city) t
      else
        run_command os (str ''mullvad relay set location '' @ country) t)"

definition disconnect :: "host \<Rightarrow> trace \<Rightarrow> (exn + pystr \<times> pystr) \<times> trace" where
  "disconnect os t = run_command os (str ''mullvad disconnect'') t"

definition get_status :: "host \<Rightarrow> bool \<Rightarrow> trace \<Rightarrow> (exn + pystr) \<times> trace" where
  "get_status os verbose t =
     (if verbose then
        (case run_command os (str ''mullvad status -v'') t of
           (Inl e, t') \<Rightarrow> (Inl e, t')
         | (Inr (stdout, stderr), t') \<Rightarrow> (Inr (strip stdout), t'))
      else
        (case run_command os (str ''mullvad status'') t of
           (Inl e, t') \<Rightarrow> (Inl e, t')
         | (Inr (stdout, stderr), t') \<Rightarrow> (Inr (strip stdout), t')))"

text \<open>
  The loop at the end of \<^verbatim>\<open>connect\<close>, with the counter \<^verbatim>\<open>wait_iter\<close> as its argument:
  query the status; leave with \<^verbatim>\<open>True\<close> when it contains \<^verbatim>\<open>"Connected"\<close>; otherwise
  sleep half a second, leave with \<^verbatim>\<open>False\<close> when the counter is above 20, and count.
\<close>

function wait_loop :: "host \<Rightarrow> int \<Rightarrow> trace \<Rightarrow> (exn + bool) \<times> trace" where
  "wait_loop os wait_iter t =
     (case get_status os False t of
        (Inl e, t1) \<Rightarrow> (Inl e, t1)
      | (Inr status, t1) \<Rightarrow>
          if contains (str ''Connected'') status then (Inr True, t1)
          else if wait_iter > 20 then (Inr False, t1 @ [Sleep (1 / 2)])
          else wait_loop os (wait_iter + 1) (t1 @ [Sleep (1 / 2)]))"
  by pat_completeness auto

termination
  by (relation "measure (\<lambda>(os, wait_iter, t). nat (21 - wait_iter))") auto

declare wait_loop.simps [simp del]

text \<open>Lines 136 to 149 of \<^verbatim>\<open>connect\<close>: select the relay, start connecting, wait.\<close>

definition connect_new_location ::
  "host \<Rightarrow> pystr \<Rightarrow> pystr option \<Rightarrow> pystr option \<Rightarrow> trace \<Rightarrow> (exn + bool) \<times> trace" where
  "connect_new_location os country city server t =
     (case set_relay_location os country city server t of
        (Inl e, t1) \<Rightarrow> (Inl e, t1)
      | (Inr _, t1) \<Rightarrow>
          (case run_command os (str ''mullvad connect'') t1 of
             (Inl e, t2) \<Rightarrow> (Inl e, t2)
           | (Inr _, t2) \<Rightarrow> wait_loop os 0 t2))"

definition connect ::
  "host \<Rightarrow> pystr \<Rightarrow> pystr option \<Rightarrow> pystr option \<Rightarrow> trace \<Rightarrow> (exn + bool) \<times> trace" where
  "connect os country city server t =
     (case get_status os False t of
        (Inl e, t1) \<Rightarrow> (Inl e, t1)
      | (Inr status, t1) \<Rightarrow>
          if contains (str ''Connected'') status then
            (case disconnect os t1 of
               (Inl e, t2) \<Rightarrow> (Inl e, t2)
             | (Inr _, t2) \<Rightarrow> connect_new_location os country city server t2)
          else connect_new_location os country city server t1)"

section \<open>Observing a run\<close>

text \<open>The processes started along a trace, in order, and the sleeps.\<close>

fun requests :: "trace \<Rightarrow> request list" where
  "requests [] = []"
| "requests (Spawn rq oc # t) = rq # requests t"
| "requests (Sleep d # t) = requests t"
| "requests (Print s # t) = requests t"

fun sleeps :: "trace \<Rightarrow> rat list" where
  "sleeps [] = []"
| "sleeps (Sleep d # t) = d # sleeps t"
| "sleeps (Spawn rq oc # t) = sleeps t"
| "sleeps (Print s # t) = sleeps t"

text \<open>
  The requests that \<^verbatim>\<open>connect\<close> and \<^verbatim>\<open>get_account_number\<close> make, and the command line of
  \<^verbatim>\<open>set_relay_location\<close> as one expression.
\<close>

abbreviation status_query :: request where
  "status_query \<equiv> shell (str ''mullvad status'')"

abbreviation disconnect_command :: request where
  "disconnect_command \<equiv> shell (str ''mullvad disconnect'')"

abbreviation connect_command :: request where
  "connect_command \<equiv> shell (str ''mullvad connect'')"

abbreviation account_query :: request where
  "account_query \<equiv> Popen [str ''mullvad'', str ''account'', str ''get''] True"

definition location_command :: "pystr \<Rightarrow> pystr option \<Rightarrow> pystr option \<Rightarrow> pystr" where
  "location_command country city server =
     (if truthy server then
        str ''mullvad relay set location '' @ country @ str '' '' @ fmt city @ str '' '' @ fmt server
      else if truthy city then
        str ''mullvad relay set location '' @ country @ str '' '' @ fmt city
      else str ''mullvad relay set location '' @ country)"

text \<open>
  The status texts that \<^verbatim>\<open>get_status()\<close> handed to its caller along a trace: one for
  every \<^verbatim>\<open>mullvad status\<close> process that ran and whose stdout and stderr decoded.
\<close>

fun observed :: "event \<Rightarrow> pystr list" where
  "observed (Spawn rq (Exited returncode out err)) =
     (if rq = status_query then
        (case decode out of
           None \<Rightarrow> []
         | Some stdout \<Rightarrow> (case decode err of None \<Rightarrow> [] | Some stderr \<Rightarrow> [strip stdout]))
      else [])"
| "observed (Spawn rq LaunchFailed) = []"
| "observed (Spawn rq (Refused why)) = []"
| "observed (Sleep d) = []"
| "observed (Print s) = []"

definition status_texts :: "trace \<Rightarrow> pystr list" where
  "status_texts t = concat (map observed t)"

section \<open>Hosts and interpreters for examples\<close>

text \<open>
  \<open>quiet\<close> runs every command successfully with no output. \<open>failing\<close> lets every command
  exit with status 1 and a message on stderr. \<open>scripted\<close> answers the successive
  \<^verbatim>\<open>mullvad status\<close> queries with the successive entries of a script (and with nothing
  once the script is used up), every other command succeeding silently; \<open>chatty\<close> gives
  the same status answers and lets every other command exit with status 1 and print on
  both streams. \<open>reconnecting\<close> is connected at first, then connecting, then connected.
  \<open>late\<close> reports \<^verbatim>\<open>Connecting\<close> until 21 sleeps have passed and \<^verbatim>\<open>Connected\<close> from then
  on. \<open>logged_in\<close> and \<open>no_account\<close> print an account report and a text without a colon.
  On \<open>no_mullvad\<close> the shell is there and the \<^verbatim>\<open>mullvad\<close> binary is not: a direct launch
  fails, and the shell reports the missing command with exit status 127. On \<open>no_shell\<close>
  nothing can be launched. \<open>cpython\<close> is an interpreter in a UTF-8 locale with the
  default digit limit; its table of non-ASCII digits is left empty.
\<close>

definition quiet :: host where
  "quiet t rq = Exited 0 [] []"

definition failing :: host where
  "failing t rq = Exited 1 [] (ascii ''Error: not logged in'')"

definition status_queries :: "trace \<Rightarrow> nat" where
  "status_queries t = length (filter (\<lambda>rq. rq = shell (str ''mullvad status'')) (requests t))"

definition scripted :: "bytes list \<Rightarrow> host" where
  "scripted script t rq =
     (if rq = shell (str ''mullvad status'') then
        (case drop (status_queries t) script of
           [] \<Rightarrow> Exited 0 [] []
         | s # _ \<Rightarrow> Exited 0 s [])
      else Exited 0 [] [])"

definition chatty :: "bytes list \<Rightarrow> host" where
  "chatty script t rq =
     (if rq = shell (str ''mullvad status'') then scripted script t rq
      else Exited 1 (ascii ''Relay constraints updated'') (ascii ''Warning: already done''))"

definition reconnecting :: host where
  "reconnecting = scripted [ascii ''Connected'', ascii ''Connecting'', ascii ''Connected'']"

definition late :: host where
  "late t rq =
     (if rq = shell (str ''mullvad status'') then
        (if 21 \<le> length (sleeps t) then Exited 0 (ascii ''Connected'') []
         else Exited 0 (ascii ''Connecting'') [])
      else Exited 0 [] [])"

definition logged_in :: host where
  "logged_in t rq = Exited 0 (ascii ''Account: 1234567890123\<newline>Expires: 2030-01-01'') []"

definition no_account :: host where
  "no_account t rq = Exited 0 (ascii ''No account'') []"

definition no_mullvad :: host where
  "no_mullvad t rq =
     (case argv rq of
        program # args \<Rightarrow>
          if program = str ''/bin/sh''
          then Exited 127 [] (ascii ''/bin/sh: 1: mullvad: not found\<newline>'')
          else LaunchFailed
      | [] \<Rightarrow> LaunchFailed)"

definition no_shell :: host where
  "no_shell t rq = LaunchFailed"

definition cpython :: interpreter where
  "cpython = \<lparr>locale_decode = decode, todecimal = (\<lambda>c. None), int_max_str_digits = 4300\<rparr>"

section \<open>Auxiliary facts\<close>

subsection \<open>Text\<close>

lemma contains_sublist: "contains needle hay \<longleftrightarrow> sublist needle hay"
  by (induction hay) (auto simp: sublist_Cons_right)

lemma sublist_dropWhile:
  assumes "\<not> P a"
  shows "sublist (a # as) (dropWhile P s) \<longleftrightarrow> sublist (a # as) s"
  using assms by (induction s) (auto simp: sublist_Cons_right)

lemma sublist_strip:
  assumes "n \<noteq> []" and "\<not> isspace (hd n)" and "\<not> isspace (last n)"
  shows "sublist n (strip s) \<longleftrightarrow> sublist n s"
proof -
  obtain a as where n: "n = a # as"
    using assms(1) by (cases n) auto
  obtain b bs where r: "rev n = b # bs"
    using assms(1) by (cases "rev n") auto
  have b: "\<not> isspace b"
    using r assms(1,3) by (metis hd_rev list.sel(1))
  have "sublist n (strip s)
          \<longleftrightarrow> sublist (rev n) (dropWhile isspace (rev (dropWhile isspace s)))"
    unfolding strip_def by (metis sublist_rev rev_rev_ident)
  also have "\<dots> \<longleftrightarrow> sublist (rev n) (rev (dropWhile isspace s))"
    unfolding r using b by (rule sublist_dropWhile)
  also have "\<dots> \<longleftrightarrow> sublist n (dropWhile isspace s)"
    by simp
  also have "\<dots> \<longleftrightarrow> sublist n s"
    unfolding n using assms(2) n by (simp add: sublist_dropWhile)
  finally show ?thesis .
qed

lemma Connected_edges:
  "str ''Connected'' \<noteq> [] \<and> \<not> isspace (hd (str ''Connected''))
     \<and> \<not> isspace (last (str ''Connected''))"
  by (simp add: str_def isspace_def)

lemma contains_Connected_strip:
  "contains (str ''Connected'') (strip s) = contains (str ''Connected'') s"
  using Connected_edges by (simp add: contains_sublist sublist_strip)

lemma Connecting_not_Connected: "\<not> contains (str ''Connected'') (str ''Connecting'')"
  by (simp add: str_def)

lemma Connected_Connected: "contains (str ''Connected'') (str ''Connected'')"
  by (simp add: str_def)

lemma split_no_sep: "sep \<notin> set s \<Longrightarrow> split sep s = [s]"
  by (induction s) auto

lemma split_at_sep: "sep \<notin> set a \<Longrightarrow> split sep (a @ sep # b) = a # split sep b"
  by (induction a) auto

lemma takeWhile_no_sep: "sep \<notin> set s \<Longrightarrow> takeWhile (\<lambda>c. c \<noteq> sep) s = s"
  by (induction s) auto

lemma split_first: "index (split sep s) 0 = Inr (takeWhile (\<lambda>c. c \<noteq> sep) s)"
proof (cases "sep \<in> set s")
  case False
  then show ?thesis
    by (simp add: takeWhile_no_sep split_no_sep index_def)
next
  case True
  then obtain a b where s: "s = a @ sep # b" and a: "sep \<notin> set a"
    by (meson split_list_first)
  have "takeWhile (\<lambda>c. c \<noteq> sep) s = a"
    unfolding s using a by (auto simp add: takeWhile_tail)
  then show ?thesis
    using a by (simp add: s split_at_sep index_def)
qed

lemma split_second_none: "sep \<notin> set s \<Longrightarrow> index (split sep s) 1 = Inl IndexError"
  by (simp add: split_no_sep index_def)

lemma split_second:
  assumes "index (split sep s) 1 = Inr f"
  shows "\<exists>a more. s = a @ sep # f @ more \<and> sep \<notin> set a \<and> sep \<notin> set f
           \<and> (more = [] \<or> hd more = sep)"
proof -
  have "sep \<in> set s"
    using assms split_second_none [of sep s] by auto
  then obtain a b where s: "s = a @ sep # b" and a: "sep \<notin> set a"
    by (meson split_list_first)
  have "index (split sep b) 0 = Inr f"
    using assms a by (simp add: s split_at_sep index_def split: if_splits)
  then have f: "f = takeWhile (\<lambda>c. c \<noteq> sep) b"
    by (simp add: split_first)
  have b: "b = f @ dropWhile (\<lambda>c. c \<noteq> sep) b"
    by (simp add: f)
  have "sep \<notin> set f"
    unfolding f by (auto dest: set_takeWhileD)
  moreover have "dropWhile (\<lambda>c. c \<noteq> sep) b = [] \<or> hd (dropWhile (\<lambda>c. c \<noteq> sep) b) = sep"
    using hd_dropWhile [of "\<lambda>c. c \<noteq> sep" b] by auto
  ultimately show ?thesis
    using s a b by metis
qed

lemma rstrip_keep:
  assumes "ys \<noteq> []" and "\<not> P (last ys)"
  shows "rev (dropWhile P (rev (ys @ zs))) = ys @ rev (dropWhile P (rev zs))"
proof -
  obtain y r where r: "rev ys = y # r" and y: "\<not> P y"
    using assms by (cases "rev ys") (auto simp add: last_rev [symmetric] hd_rev)
  have "dropWhile P (rev zs @ y # r) = dropWhile P (rev zs) @ y # r"
    using y by (rule dropWhile_append3)
  then show ?thesis
    using r by (simp add: rev_swap [symmetric])
qed

lemma rstrip_prefix: "prefix (rev (dropWhile P (rev zs))) zs"
proof -
  have "rev zs = takeWhile P (rev zs) @ dropWhile P (rev zs)"
    by simp
  then have "zs = rev (dropWhile P (rev zs)) @ rev (takeWhile P (rev zs))"
    by (metis rev_append rev_rev_ident)
  then show ?thesis
    by (metis prefixI)
qed

lemma digit_facts:
  "is_digit d \<Longrightarrow> \<not> isspace d \<and> \<not> int_space d \<and> d \<noteq> 10 \<and> d \<noteq> 58 \<and> d \<noteq> 95
     \<and> d \<noteq> 43 \<and> d \<noteq> 45 \<and> d < 127"
  by (auto simp add: is_digit_def isspace_def int_space_def)

lemma to_ascii_ascii: "\<forall>c\<in>set s. c < 127 \<Longrightarrow> to_ascii dec s = Some s"
  by (induction s) auto

lemma py_int_digits:
  assumes "ds \<noteq> []" and "\<forall>d\<in>set ds. is_digit d" and "length ds \<le> 640"
  shows "py_int py ds = Inr (decimal_value ds)"
proof -
  obtain d r where ds: "ds = d # r"
    using assms(1) by (cases ds) auto
  have d: "is_digit d"
    using assms(2) ds by simp
  have a: "to_ascii (todecimal py) ds = Some ds"
    using assms(2) digit_facts by (intro to_ascii_ascii) blast
  have b: "dropWhile int_space ds = ds"
    using d digit_facts [of d] by (simp add: ds)
  have t: "takeWhile (\<lambda>x. is_digit x \<or> x = 95) ds = ds"
    using assms(2) by (simp add: takeWhile_eq_all_conv)
  have r: "dropWhile (\<lambda>x. is_digit x \<or> x = 95) ds = []"
    using assms(2) by simp
  have f: "filter is_digit ds = ds"
    using assms(2) by simp
  have n: "95 \<notin> set ds"
    using assms(2) digit_facts by blast
  have l: "last ds \<noteq> 95" and h: "hd ds \<noteq> 95" and hs: "hd ds \<noteq> 43" "hd ds \<noteq> 45"
    using n assms(1) last_in_set [OF assms(1)] d digit_facts [of d] by (auto simp add: ds)
  have u: "\<not> contains [95, 95] ds"
  proof
    assume "contains [95, 95] ds"
    then have "sublist [95, 95] ds"
      by (simp add: contains_sublist)
    then have "set [95, 95] \<subseteq> set ds"
      by (rule set_mono_sublist)
    then show False
      using n by simp
  qed
  show ?thesis
    unfolding py_int_def using assms(1,3) h l hs u
    by (simp add: a b t r f Let_def)
qed

lemma strip_field:
  assumes "ds \<noteq> []" and "\<forall>d\<in>set ds. is_digit d"
  shows "strip (32 # ds) = ds"
proof -
  have h: "\<not> isspace (hd ds)" and l: "\<not> isspace (last ds)"
    using assms digit_facts by (auto simp add: last_in_set)
  have "dropWhile isspace (32 # ds) = ds"
    using h assms(1) by (cases ds) (auto simp add: isspace_def)
  moreover have "rev (dropWhile isspace (rev ds)) = ds"
    using rstrip_keep [of ds isspace "[]"] assms(1) l by simp
  ultimately show ?thesis
    by (simp add: strip_def)
qed

lemma first_line_of_account_text:
  assumes "10 \<notin> set label" and "ds \<noteq> []" and "\<forall>d\<in>set ds. is_digit d"
    and "tail = [] \<or> hd tail = 10"
  shows "takeWhile (\<lambda>c. c \<noteq> 10) (strip (label @ 58 # 32 # ds @ tail)) =
           dropWhile isspace label @ 58 # 32 # ds"
proof -
  let ?l = "dropWhile isspace label"
  let ?t = "rev (dropWhile isspace (rev tail))"
  have c: "\<not> isspace 58"
    by (simp add: isspace_def)
  have left: "dropWhile isspace (label @ 58 # 32 # ds @ tail) = ?l @ 58 # 32 # ds @ tail"
    using c by (rule dropWhile_append3)
  have l: "\<not> isspace (last (?l @ 58 # 32 # ds))"
    using assms(2,3) digit_facts by (auto simp add: last_in_set)
  have right: "rev (dropWhile isspace (rev ((?l @ 58 # 32 # ds) @ tail))) =
                 (?l @ 58 # 32 # ds) @ ?t"
    using l by (intro rstrip_keep) simp_all
  have s: "strip (label @ 58 # 32 # ds @ tail) = (?l @ 58 # 32 # ds) @ ?t"
    unfolding strip_def left using right by simp
  have t: "takeWhile (\<lambda>c. c \<noteq> 10) ?t = []"
  proof (cases "?t")
    case Nil
    show ?thesis by (simp only: Nil takeWhile.simps)
  next
    case (Cons x xs)
    have "prefix ?t tail"
      by (rule rstrip_prefix)
    then have "hd tail = x" and "tail \<noteq> []"
      using Cons by (auto simp add: prefix_def)
    then show ?thesis
      using assms(4) Cons by simp
  qed
  have "10 \<notin> set (?l @ 58 # 32 # ds)"
    using assms(1,3) digit_facts by (auto dest: set_dropWhileD)
  then have "takeWhile (\<lambda>c. c \<noteq> 10) ((?l @ 58 # 32 # ds) @ ?t) =
               (?l @ 58 # 32 # ds) @ takeWhile (\<lambda>c. c \<noteq> 10) ?t"
    by (intro takeWhile_append2) auto
  then show ?thesis
    unfolding s using t by simp
qed

lemma parse_account_text:
  assumes "10 \<notin> set label" and "58 \<notin> set label" and "ds \<noteq> []" and "\<forall>d\<in>set ds. is_digit d"
    and "length ds \<le> 640" and "tail = [] \<or> hd tail = 10"
  shows "parse_account_output py (label @ 58 # 32 # ds @ tail) = Inr (decimal_value ds)"
proof -
  let ?l = "dropWhile isspace label"
  have line: "index (split 10 (strip (label @ 58 # 32 # ds @ tail))) 0 = Inr (?l @ 58 # 32 # ds)"
    using first_line_of_account_text [OF assms(1,3,4,6)] by (simp add: split_first)
  have "58 \<notin> set ?l" and "58 \<notin> set (32 # ds)"
    using assms(2,4) digit_facts by (auto dest: set_dropWhileD)
  then have field: "index (split 58 (?l @ 58 # 32 # ds)) 1 = Inr (32 # ds)"
    by (simp add: split_at_sep split_no_sep index_def)
  show ?thesis
    unfolding parse_account_output_def
    using line field strip_field [OF assms(3,4)] py_int_digits [OF assms(3,4,5)]
    by (simp add: Let_def)
qed

lemma parse_account_no_colon:
  assumes "58 \<notin> set (takeWhile (\<lambda>c. c \<noteq> 10) (strip output))"
  shows "parse_account_output py output = Inl IndexError"
  unfolding parse_account_output_def
  using assms by (simp add: Let_def split_first split_second_none del: One_nat_def)

lemma parse_account_value:
  assumes "parse_account_output py output = Inr n"
  shows "\<exists>label field more.
           takeWhile (\<lambda>c. c \<noteq> 10) (strip output) = label @ 58 # field @ more
           \<and> 58 \<notin> set label \<and> 58 \<notin> set field \<and> (more = [] \<or> hd more = 58)
           \<and> py_int py (strip field) = Inr n"
proof -
  let ?line = "takeWhile (\<lambda>c. c \<noteq> 10) (strip output)"
  obtain field where f: "index (split 58 ?line) 1 = Inr field"
    and p: "py_int py (strip field) = Inr n"
    using assms unfolding parse_account_output_def
    by (auto simp add: Let_def split_first split: sum.splits simp del: One_nat_def)
  from split_second [OF f] show ?thesis
    using p by blast
qed

lemma parse_account_exn:
  assumes "parse_account_output py output = Inl e"
  shows "e = IndexError \<or> e = ValueError"
  using assms unfolding parse_account_output_def py_int_def index_def
  by (auto simp add: Let_def split: sum.splits option.splits if_splits)

lemma prefix_take_ge: "length ys \<le> n \<Longrightarrow> prefix ys (take n (ys @ zs))"
  by (simp add: prefix_def)

lemma replicate_22: "x # replicate 21 x = replicate 22 x"
  using replicate_Suc [of 21 x] by simp

subsection \<open>Commands and traces\<close>

lemma requests_append: "requests (t @ u) = requests t @ requests u"
  by (induction t rule: requests.induct) simp_all

lemma sleeps_append: "sleeps (t @ u) = sleeps t @ sleeps u"
  by (induction t rule: sleeps.induct) simp_all

lemma status_texts_append: "status_texts (t @ u) = status_texts t @ status_texts u"
  by (simp add: status_texts_def)

lemma shell_inject: "shell c = shell d \<longleftrightarrow> c = d"
  by (simp add: shell_def)

lemma run_command_trace:
  "snd (run_command os command t) = t @ [Spawn (shell command) (os t (shell command))]"
  by (simp add: run_command_def Let_def split: outcome.splits option.splits)

lemma run_command_result:
  "fst (run_command os command t) =
     (case os t (shell command) of
        Refused why \<Rightarrow> Inl (refusal_error why)
      | LaunchFailed \<Rightarrow> Inl OSError
      | Exited returncode out err \<Rightarrow>
          (case decode out of
             None \<Rightarrow> Inl UnicodeDecodeError
           | Some a \<Rightarrow> (case decode err of None \<Rightarrow> Inl UnicodeDecodeError | Some b \<Rightarrow> Inr (a, b))))"
  by (simp add: run_command_def Let_def split: outcome.splits option.splits)

lemma refusal_error_cases:
  "refusal_error why = ValueError \<or> refusal_error why = UnicodeEncodeError"
  by (cases why) simp_all

lemma run_command_exn:
  "fst (run_command os c t) = Inl e \<Longrightarrow> run_error e"
  using refusal_error_cases
  by (auto simp add: run_command_def Let_def split: outcome.splits option.splits)

lemma run_command_refused:
  "os t (shell command) = Refused why \<Longrightarrow>
     run_command os command t =
       (Inl (refusal_error why), t @ [Spawn (shell command) (Refused why)])"
  by (simp add: run_command_def)

lemma set_relay_location_run:
  "set_relay_location os country city server t =
     run_command os (location_command country city server) t"
  by (simp add: set_relay_location_def location_command_def)

lemma location_command_distinct:
  "location_command country city server \<noteq> str ''mullvad status''"
  "location_command country city server \<noteq> str ''mullvad disconnect''"
  "location_command country city server \<noteq> str ''mullvad connect''"
  by (simp_all add: location_command_def str_def)

lemma command_distinct:
  "str ''mullvad disconnect'' \<noteq> str ''mullvad status''"
  "str ''mullvad connect'' \<noteq> str ''mullvad status''"
  "str ''mullvad connect'' \<noteq> str ''mullvad disconnect''"
  by (simp_all add: str_def)

lemma observed_other:
  "c \<noteq> str ''mullvad status'' \<Longrightarrow> observed (Spawn (shell c) oc) = []"
  by (cases oc) (simp_all add: shell_inject)

lemma get_status_trace:
  "snd (get_status os False t) = t @ [Spawn status_query (os t status_query)]"
  by (simp add: get_status_def run_command_def Let_def split: outcome.splits option.splits)

lemma get_status_observed:
  "observed (Spawn status_query (os t status_query)) =
     (case fst (get_status os False t) of Inr s \<Rightarrow> [s] | Inl e \<Rightarrow> [])"
  by (simp add: get_status_def run_command_def Let_def split: outcome.splits option.splits)

lemma get_status_exn:
  "fst (get_status os False t) = Inl e \<Longrightarrow> run_error e"
  using refusal_error_cases
  by (auto simp add: get_status_def run_command_def Let_def split: outcome.splits option.splits)

lemma get_account_number_exit_0:
  assumes "os t account_query = Exited 0 out err" and "locale_decode py out = Some stdout"
  shows "fst (get_account_number py os t) =
           (case parse_account_output py (translate_newlines stdout) of
              Inl e \<Rightarrow> Inl e
            | Inr n \<Rightarrow> Inr (PyInt n))"
  using assms by (simp add: get_account_number_def check_output_def split: sum.splits)

subsection \<open>The wait loop and \<^verbatim>\<open>connect\<close>\<close>

lemma wait_loop_spec:
  "wait_loop os w t = (r, t') \<Longrightarrow> w \<le> 21 \<Longrightarrow>
     \<exists>new pre. t' = t @ new \<and> int (length pre) \<le> 21 - w
       \<and> requests new = replicate (Suc (length pre)) status_query
       \<and> (\<forall>s\<in>set pre. \<not> contains (str ''Connected'') s)
       \<and> (case r of
            Inr True \<Rightarrow> (\<exists>s. status_texts new = pre @ [s] \<and> contains (str ''Connected'') s)
                         \<and> sleeps new = replicate (length pre) (1 / 2)
          | Inr False \<Rightarrow> (\<exists>s. status_texts new = pre @ [s] \<and> \<not> contains (str ''Connected'') s)
                         \<and> int (length pre) = 21 - w
                         \<and> sleeps new = replicate (Suc (length pre)) (1 / 2)
          | Inl e \<Rightarrow> status_texts new = pre \<and> sleeps new = replicate (length pre) (1 / 2)
                     \<and> run_error e)"
proof (induction os w t arbitrary: r t' rule: wait_loop.induct)
  case (1 os w t)
  let ?ev = "Spawn status_query (os t status_query)"
  obtain x t1 where g: "get_status os False t = (x, t1)" by (cases "get_status os False t")
  have t1: "t1 = t @ [?ev]" using get_status_trace [of os t] g by simp
  show ?case
  proof (cases x)
    case (Inl e)
    have ob: "observed ?ev = []" using get_status_observed [of os t] g Inl by simp
    have r: "r = Inl e" "t' = t1" using "1.prems"(1) g Inl by (simp_all add: wait_loop.simps)
    have e: "run_error e" using get_status_exn [of os t e] g Inl by simp
    show ?thesis
      apply (rule exI [of _ "[?ev]"], rule exI [of _ "[]"])
      using r t1 ob e "1.prems"(2) by (simp add: status_texts_def)
  next
    case (Inr s)
    have ob: "observed ?ev = [s]" using get_status_observed [of os t] g Inr by simp
    show ?thesis
    proof (cases "contains (str ''Connected'') s")
      case True
      have r: "r = Inr True" "t' = t1" using "1.prems"(1) g Inr True by (simp_all add: wait_loop.simps)
      show ?thesis
        apply (rule exI [of _ "[?ev]"], rule exI [of _ "[]"])
        using r t1 ob True "1.prems"(2) by (simp add: status_texts_def)
    next
      case False
      show ?thesis
      proof (cases "w > 20")
        case True
        have r: "r = Inr False" "t' = t1 @ [Sleep (1/2)]"
          using "1.prems"(1) g Inr False True by (simp_all add: wait_loop.simps)
        have w: "w = 21" using True "1.prems"(2) by simp
        show ?thesis
          apply (rule exI [of _ "[?ev, Sleep (1/2)]"], rule exI [of _ "[]"])
          using r t1 ob False w by (simp add: status_texts_def)
      next
        case w: False
        have rec: "wait_loop os (w + 1) (t1 @ [Sleep (1/2)]) = (r, t')"
          using "1.prems"(1) g Inr False w by (simp add: wait_loop.simps)
        have "w + 1 \<le> 21" using w by simp
        from "1.IH" [OF g [symmetric] Inr False w rec this]
        obtain new pre where ih: "t' = (t1 @ [Sleep (1/2)]) @ new" "int (length pre) \<le> 21 - (w + 1)"
          "requests new = replicate (Suc (length pre)) status_query"
          "\<forall>s\<in>set pre. \<not> contains (str ''Connected'') s"
          "(case r of
            Inr True \<Rightarrow> (\<exists>s. status_texts new = pre @ [s] \<and> contains (str ''Connected'') s)
                         \<and> sleeps new = replicate (length pre) (1 / 2)
          | Inr False \<Rightarrow> (\<exists>s. status_texts new = pre @ [s] \<and> \<not> contains (str ''Connected'') s)
                         \<and> int (length pre) = 21 - (w + 1)
                         \<and> sleeps new = replicate (Suc (length pre)) (1 / 2)
          | Inl e \<Rightarrow> status_texts new = pre \<and> sleeps new = replicate (length pre) (1 / 2)
                     \<and> run_error e)"
          by blast
        show ?thesis
          apply (rule exI [of _ "[?ev, Sleep (1/2)] @ new"], rule exI [of _ "s # pre"])
          using ih t1 ob False
          by (auto simp add: status_texts_def requests_append sleeps_append split: sum.splits bool.splits)
      qed
    qed
  qed
qed

lemma connect_new_location_spec:
  assumes "connect_new_location os country city server t = (r, t')"
  shows "\<exists>new pre n. t' = t @ new \<and> length pre \<le> 21
       \<and> requests new =
           take n ([shell (location_command country city server), connect_command]
                     @ replicate 22 status_query)
       \<and> 1 \<le> n \<and> ((\<exists>b. r = Inr b) \<longrightarrow> 3 \<le> n)
       \<and> (\<forall>s\<in>set pre. \<not> contains (str ''Connected'') s)
       \<and> (case r of
            Inr True \<Rightarrow> (\<exists>s. status_texts new = pre @ [s] \<and> contains (str ''Connected'') s)
                         \<and> sleeps new = replicate (length pre) (1 / 2)
          | Inr False \<Rightarrow> (\<exists>s. status_texts new = pre @ [s] \<and> \<not> contains (str ''Connected'') s)
                         \<and> length pre = 21
                         \<and> sleeps new = replicate (Suc (length pre)) (1 / 2)
          | Inl e \<Rightarrow> status_texts new = pre \<and> sleeps new = replicate (length pre) (1 / 2)
                     \<and> run_error e)"
proof -
  let ?L = "location_command country city server"
  let ?e1 = "Spawn (shell ?L) (os t (shell ?L))"
  obtain x t1 where s: "run_command os ?L t = (x, t1)"
    by (cases "run_command os ?L t")
  have t1: "t1 = t @ [?e1]"
    using run_command_trace [of os ?L t] s by simp
  have o1: "observed ?e1 = []"
    by (rule observed_other) (rule location_command_distinct)
  show ?thesis
  proof (cases x)
    case (Inl e)
    have r: "r = Inl e" "t' = t1"
      using assms s Inl by (simp_all add: connect_new_location_def set_relay_location_run)
    have e: "run_error e"
      using run_command_exn [of os ?L t e] s Inl by simp
    show ?thesis
      apply (rule exI [of _ "[?e1]"], rule exI [of _ "[]"], rule exI [of _ 1])
      using r t1 o1 e by (simp add: status_texts_def)
  next
    case (Inr v)
    let ?e2 = "Spawn connect_command (os t1 connect_command)"
    obtain y t2 where c: "run_command os (str ''mullvad connect'') t1 = (y, t2)"
      by (cases "run_command os (str ''mullvad connect'') t1")
    have t2: "t2 = t1 @ [?e2]"
      using run_command_trace [of os "str ''mullvad connect''" t1] c by simp
    have o2: "observed ?e2 = []"
      by (rule observed_other) (rule command_distinct)
    show ?thesis
    proof (cases y)
      case (Inl e)
      have r: "r = Inl e" "t' = t2"
        using assms s c Inr Inl by (simp_all add: connect_new_location_def set_relay_location_run)
      have e: "run_error e"
        using run_command_exn [of os "str ''mullvad connect''" t1 e] c Inl by simp
      show ?thesis
        apply (rule exI [of _ "[?e1, ?e2]"], rule exI [of _ "[]"], rule exI [of _ 2])
        using r t1 t2 o1 o2 e by (simp add: status_texts_def)
    next
      case y: (Inr u)
      have w: "wait_loop os 0 t2 = (r, t')"
        using assms s c Inr y by (simp add: connect_new_location_def set_relay_location_run)
      from wait_loop_spec [OF w] obtain new pre where
        ih: "t' = t2 @ new" "int (length pre) \<le> 21"
          "requests new = replicate (Suc (length pre)) status_query"
          "\<forall>s\<in>set pre. \<not> contains (str ''Connected'') s"
          "(case r of
            Inr True \<Rightarrow> (\<exists>s. status_texts new = pre @ [s] \<and> contains (str ''Connected'') s)
                         \<and> sleeps new = replicate (length pre) (1 / 2)
          | Inr False \<Rightarrow> (\<exists>s. status_texts new = pre @ [s] \<and> \<not> contains (str ''Connected'') s)
                         \<and> int (length pre) = 21 - 0
                         \<and> sleeps new = replicate (Suc (length pre)) (1 / 2)
          | Inl e \<Rightarrow> status_texts new = pre \<and> sleeps new = replicate (length pre) (1 / 2)
                     \<and> run_error e)"
        by auto
      have tk: "replicate (Suc (length pre)) status_query
                  = take (Suc (length pre)) (replicate 22 status_query)"
        using ih(2) by (simp add: min_def)
      show ?thesis
        apply (rule exI [of _ "[?e1, ?e2] @ new"], rule exI [of _ pre],
            rule exI [of _ "Suc (Suc (Suc (length pre)))"])
        using ih t1 t2 o1 o2 tk
        by (auto simp add: status_texts_def requests_append sleeps_append
            split: sum.splits bool.splits)
    qed
  qed
qed

lemma connect_spec:
  assumes "connect os country city server t = (r, t')"
  shows "\<exists>new. t' = t @ new \<and>
     (case fst (get_status os False t) of
        Inl e \<Rightarrow> r = Inl e \<and> run_error e
                   \<and> requests new = [status_query] \<and> status_texts new = [] \<and> sleeps new = []
      | Inr s0 \<Rightarrow>
          (\<exists>pre n. length pre \<le> 21 \<and> (\<forall>s\<in>set pre. \<not> contains (str ''Connected'') s)
             \<and> requests new =
                 status_query #
                   take n ((if contains (str ''Connected'') s0 then [disconnect_command] else [])
                            @ [shell (location_command country city server), connect_command]
                            @ replicate 22 status_query)
             \<and> 1 \<le> n
             \<and> ((\<exists>b. r = Inr b) \<longrightarrow> (if contains (str ''Connected'') s0 then 4 else 3) \<le> n)
             \<and> (case r of
                  Inr True \<Rightarrow>
                    (\<exists>s. status_texts new = s0 # pre @ [s] \<and> contains (str ''Connected'') s)
                    \<and> sleeps new = replicate (length pre) (1 / 2)
                | Inr False \<Rightarrow>
                    (\<exists>s. status_texts new = s0 # pre @ [s] \<and> \<not> contains (str ''Connected'') s)
                    \<and> length pre = 21
                    \<and> sleeps new = replicate (Suc (length pre)) (1 / 2)
                | Inl e \<Rightarrow>
                    status_texts new = s0 # pre \<and> sleeps new = replicate (length pre) (1 / 2)
                    \<and> run_error e)))"
proof -
  let ?C = "str ''Connected''"
  let ?L = "shell (location_command country city server)"
  let ?e0 = "Spawn status_query (os t status_query)"
  obtain x t1 where g: "get_status os False t = (x, t1)"
    by (cases "get_status os False t")
  have t1: "t1 = t @ [?e0]"
    using get_status_trace [of os t] g by simp
  show ?thesis
  proof (cases x)
    case (Inl e)
    have r: "r = Inl e" "t' = t1"
      using assms g Inl by (simp_all add: connect_def)
    have e: "run_error e"
      using get_status_exn [of os t e] g Inl by simp
    have o0: "observed ?e0 = []"
      using get_status_observed [of os t] g Inl by simp
    show ?thesis
      apply (rule exI [of _ "[?e0]"])
      using r t1 e o0 g Inl by (simp add: status_texts_def)
  next
    case (Inr s0)
    have o0: "observed ?e0 = [s0]"
      using get_status_observed [of os t] g Inr by simp
    have rest: "\<And>u. connect_new_location os country city server u = (r, t') \<Longrightarrow>
      \<exists>new pre n. t' = u @ new \<and> length pre \<le> 21
        \<and> requests new = take n ([?L, connect_command] @ replicate 22 status_query)
        \<and> 1 \<le> n \<and> ((\<exists>b. r = Inr b) \<longrightarrow> 3 \<le> n)
        \<and> (\<forall>s\<in>set pre. \<not> contains ?C s)
        \<and> (case r of
            Inr True \<Rightarrow> (\<exists>s. status_texts new = pre @ [s] \<and> contains ?C s)
                         \<and> sleeps new = replicate (length pre) (1 / 2)
          | Inr False \<Rightarrow> (\<exists>s. status_texts new = pre @ [s] \<and> \<not> contains ?C s)
                         \<and> length pre = 21
                         \<and> sleeps new = replicate (Suc (length pre)) (1 / 2)
          | Inl e \<Rightarrow> status_texts new = pre \<and> sleeps new = replicate (length pre) (1 / 2)
                     \<and> run_error e)"
      by (rule connect_new_location_spec)
    show ?thesis
    proof (cases "contains ?C s0")
      case False
      have "connect_new_location os country city server t1 = (r, t')"
        using assms g Inr False by (simp add: connect_def)
      from rest [OF this] obtain new pre n where
        ih: "t' = t1 @ new" "length pre \<le> 21"
          "requests new = take n ([?L, connect_command] @ replicate 22 status_query)"
          "1 \<le> n" "(\<exists>b. r = Inr b) \<longrightarrow> 3 \<le> n"
          "\<forall>s\<in>set pre. \<not> contains ?C s"
          "(case r of
            Inr True \<Rightarrow> (\<exists>s. status_texts new = pre @ [s] \<and> contains ?C s)
                         \<and> sleeps new = replicate (length pre) (1 / 2)
          | Inr False \<Rightarrow> (\<exists>s. status_texts new = pre @ [s] \<and> \<not> contains ?C s)
                         \<and> length pre = 21
                         \<and> sleeps new = replicate (Suc (length pre)) (1 / 2)
          | Inl e \<Rightarrow> status_texts new = pre \<and> sleeps new = replicate (length pre) (1 / 2)
                     \<and> run_error e)"
        by blast
      have body: "\<exists>pre n. length pre \<le> 21 \<and> (\<forall>s\<in>set pre. \<not> contains ?C s)
             \<and> requests (?e0 # new) =
                 status_query #
                   take n ((if contains ?C s0 then [disconnect_command] else [])
                            @ [?L, connect_command] @ replicate 22 status_query)
             \<and> 1 \<le> n
             \<and> ((\<exists>b. r = Inr b) \<longrightarrow> (if contains ?C s0 then 4 else 3) \<le> n)
             \<and> (case r of
                  Inr True \<Rightarrow>
                    (\<exists>s. status_texts (?e0 # new) = s0 # pre @ [s] \<and> contains ?C s)
                    \<and> sleeps (?e0 # new) = replicate (length pre) (1 / 2)
                | Inr False \<Rightarrow>
                    (\<exists>s. status_texts (?e0 # new) = s0 # pre @ [s] \<and> \<not> contains ?C s)
                    \<and> length pre = 21
                    \<and> sleeps (?e0 # new) = replicate (Suc (length pre)) (1 / 2)
                | Inl e \<Rightarrow>
                    status_texts (?e0 # new) = s0 # pre
                    \<and> sleeps (?e0 # new) = replicate (length pre) (1 / 2)
                    \<and> run_error e)"
        apply (rule exI [of _ pre], rule exI [of _ n])
        using ih(2-7) o0 False
        by (auto simp add: status_texts_def split: sum.splits bool.splits)
      show ?thesis
        apply (rule exI [of _ "?e0 # new"])
        using body ih(1) t1 g Inr by simp
    next
      case True
      let ?e1 = "Spawn disconnect_command (os t1 disconnect_command)"
      obtain y t2 where d: "disconnect os t1 = (y, t2)"
        by (cases "disconnect os t1")
      have t2: "t2 = t1 @ [?e1]"
        using run_command_trace [of os "str ''mullvad disconnect''" t1] d
        by (simp add: disconnect_def)
      have o1: "observed ?e1 = []"
        by (rule observed_other) (rule command_distinct)
      show ?thesis
      proof (cases y)
        case (Inl e)
        have r: "r = Inl e" "t' = t2"
          using assms g Inr True d Inl by (simp_all add: connect_def)
        have e: "run_error e"
          using run_command_exn [of os "str ''mullvad disconnect''" t1 e] d Inl
          by (simp add: disconnect_def)
        have body: "\<exists>pre n. length pre \<le> 21 \<and> (\<forall>s\<in>set pre. \<not> contains ?C s)
             \<and> requests [?e0, ?e1] =
                 status_query #
                   take n ((if contains ?C s0 then [disconnect_command] else [])
                            @ [?L, connect_command] @ replicate 22 status_query)
             \<and> 1 \<le> n
             \<and> ((\<exists>b. r = Inr b) \<longrightarrow> (if contains ?C s0 then 4 else 3) \<le> n)
             \<and> status_texts [?e0, ?e1] = s0 # pre
             \<and> sleeps [?e0, ?e1] = replicate (length pre) (1 / 2)"
          apply (rule exI [of _ "[]"], rule exI [of _ 1])
          using r o0 o1 True by (simp add: status_texts_def)
        show ?thesis
          apply (rule exI [of _ "[?e0, ?e1]"])
          using body r t1 t2 e g Inr by simp
      next
        case y: (Inr v)
        have "connect_new_location os country city server t2 = (r, t')"
          using assms g Inr True d y by (simp add: connect_def)
        from rest [OF this] obtain new pre n where
          ih: "t' = t2 @ new" "length pre \<le> 21"
            "requests new = take n ([?L, connect_command] @ replicate 22 status_query)"
            "1 \<le> n" "(\<exists>b. r = Inr b) \<longrightarrow> 3 \<le> n"
            "\<forall>s\<in>set pre. \<not> contains ?C s"
            "(case r of
              Inr True \<Rightarrow> (\<exists>s. status_texts new = pre @ [s] \<and> contains ?C s)
                           \<and> sleeps new = replicate (length pre) (1 / 2)
            | Inr False \<Rightarrow> (\<exists>s. status_texts new = pre @ [s] \<and> \<not> contains ?C s)
                           \<and> length pre = 21
                           \<and> sleeps new = replicate (Suc (length pre)) (1 / 2)
            | Inl e \<Rightarrow> status_texts new = pre \<and> sleeps new = replicate (length pre) (1 / 2)
                       \<and> run_error e)"
          by blast
        have body: "\<exists>pre n. length pre \<le> 21 \<and> (\<forall>s\<in>set pre. \<not> contains ?C s)
             \<and> requests (?e0 # ?e1 # new) =
                 status_query #
                   take n ((if contains ?C s0 then [disconnect_command] else [])
                            @ [?L, connect_command] @ replicate 22 status_query)
             \<and> 1 \<le> n
             \<and> ((\<exists>b. r = Inr b) \<longrightarrow> (if contains ?C s0 then 4 else 3) \<le> n)
             \<and> (case r of
                  Inr True \<Rightarrow>
                    (\<exists>s. status_texts (?e0 # ?e1 # new) = s0 # pre @ [s] \<and> contains ?C s)
                    \<and> sleeps (?e0 # ?e1 # new) = replicate (length pre) (1 / 2)
                | Inr False \<Rightarrow>
                    (\<exists>s. status_texts (?e0 # ?e1 # new) = s0 # pre @ [s] \<and> \<not> contains ?C s)
                    \<and> length pre = 21
                    \<and> sleeps (?e0 # ?e1 # new) = replicate (Suc (length pre)) (1 / 2)
                | Inl e \<Rightarrow>
                    status_texts (?e0 # ?e1 # new) = s0 # pre
                    \<and> sleeps (?e0 # ?e1 # new) = replicate (length pre) (1 / 2)
                    \<and> run_error e)"
          apply (rule exI [of _ pre], rule exI [of _ "Suc n"])
          using ih(2-7) o0 o1 True
          by (auto simp add: status_texts_def split: sum.splits bool.splits)
        show ?thesis
          apply (rule exI [of _ "?e0 # ?e1 # new"])
          using body ih(1) t1 t2 g Inr by simp
      qed
    qed
  qed
qed

lemma connect_result_from_status:
  assumes "connect os country city server t = (r, t')"
  shows "(r = Inr True \<longleftrightarrow>
            2 \<le> length (status_texts (drop (length t) t'))
            \<and> contains (str ''Connected'') (last (status_texts (drop (length t) t'))))"
    and "(r = Inr False \<longleftrightarrow>
            length (status_texts (drop (length t) t')) = 23
            \<and> \<not> contains (str ''Connected'') (last (status_texts (drop (length t) t'))))"
proof -
  from connect_spec [OF assms] obtain new where
    new: "t' = t @ new" and
    sp: "(case fst (get_status os False t) of
        Inl e \<Rightarrow> r = Inl e \<and> run_error e
                   \<and> requests new = [status_query] \<and> status_texts new = [] \<and> sleeps new = []
      | Inr s0 \<Rightarrow>
          (\<exists>pre n. length pre \<le> 21 \<and> (\<forall>s\<in>set pre. \<not> contains (str ''Connected'') s)
             \<and> requests new =
                 status_query #
                   take n ((if contains (str ''Connected'') s0 then [disconnect_command] else [])
                            @ [shell (location_command country city server), connect_command]
                            @ replicate 22 status_query)
             \<and> 1 \<le> n
             \<and> ((\<exists>b. r = Inr b) \<longrightarrow> (if contains (str ''Connected'') s0 then 4 else 3) \<le> n)
             \<and> (case r of
                  Inr True \<Rightarrow>
                    (\<exists>s. status_texts new = s0 # pre @ [s] \<and> contains (str ''Connected'') s)
                    \<and> sleeps new = replicate (length pre) (1 / 2)
                | Inr False \<Rightarrow>
                    (\<exists>s. status_texts new = s0 # pre @ [s] \<and> \<not> contains (str ''Connected'') s)
                    \<and> length pre = 21
                    \<and> sleeps new = replicate (Suc (length pre)) (1 / 2)
                | Inl e \<Rightarrow>
                    status_texts new = s0 # pre \<and> sleeps new = replicate (length pre) (1 / 2)
                    \<and> run_error e)))"
    by blast
  have d: "drop (length t) t' = new"
    using new by simp
  show "(r = Inr True \<longleftrightarrow>
            2 \<le> length (status_texts (drop (length t) t'))
            \<and> contains (str ''Connected'') (last (status_texts (drop (length t) t'))))"
    unfolding d using sp
    by (cases "fst (get_status os False t)"; cases r)
      (auto split: bool.splits if_splits dest: last_in_set)
  show "(r = Inr False \<longleftrightarrow>
            length (status_texts (drop (length t) t')) = 23
            \<and> \<not> contains (str ''Connected'') (last (status_texts (drop (length t) t'))))"
    unfolding d using sp
    by (cases "fst (get_status os False t)"; cases r) (auto split: bool.splits)
qed

subsection \<open>Evaluation on the example hosts\<close>

lemmas evals = connect_def connect_new_location_def get_status_def disconnect_def
  set_relay_location_def run_command_def Let_def scripted_def status_queries_def str_def
  ascii_def decode_def shell_def strip_def isspace_def chatty_def status_texts_def
  wait_loop.simps

lemma get_status_late_early:
  "length (sleeps t) < 21 \<Longrightarrow>
     get_status late False t =
       (Inr (str ''Connecting''), t @ [Spawn status_query (Exited 0 (ascii ''Connecting'') [])])"
  by (simp add: get_status_def run_command_def late_def decode_def ascii_def str_def strip_def
      isspace_def)

lemma get_status_late_done:
  "21 \<le> length (sleeps t) \<Longrightarrow>
     get_status late False t =
       (Inr (str ''Connected''), t @ [Spawn status_query (Exited 0 (ascii ''Connected'') [])])"
  by (simp add: get_status_def run_command_def late_def decode_def ascii_def str_def strip_def
      isspace_def)

lemma observed_Connecting:
  "observed (Spawn status_query (Exited 0 (ascii ''Connecting'') [])) = [str ''Connecting'']"
  by (simp add: decode_def ascii_def str_def strip_def isspace_def)

lemma observed_Connected:
  "observed (Spawn status_query (Exited 0 (ascii ''Connected'') [])) = [str ''Connected'']"
  by (simp add: decode_def ascii_def str_def strip_def isspace_def)

lemma wait_loop_late:
  "length (sleeps t) + n = 21 \<Longrightarrow>
     fst (wait_loop late (int (length (sleeps t))) t) = Inr True
     \<and> status_texts (snd (wait_loop late (int (length (sleeps t))) t)) =
         status_texts t @ replicate n (str ''Connecting'') @ [str ''Connected'']
     \<and> sleeps (snd (wait_loop late (int (length (sleeps t))) t)) =
         sleeps t @ replicate n (1 / 2)"
proof (induction n arbitrary: t)
  case 0
  then have "21 \<le> length (sleeps t)"
    by simp
  then show ?case
    by (simp add: wait_loop.simps get_status_late_done Connected_Connected
        status_texts_append sleeps_append status_texts_def observed_Connected
        del: observed.simps(1))
next
  case (Suc n)
  let ?t = "t @ [Spawn status_query (Exited 0 (ascii ''Connecting'') []), Sleep (1 / 2)]"
  have early: "length (sleeps t) < 21"
    using Suc.prems by simp
  have len: "length (sleeps ?t) = Suc (length (sleeps t))"
    by (simp add: sleeps_append)
  have eq: "int (length (sleeps ?t)) = int (length (sleeps t)) + 1"
    using len by simp
  have step: "wait_loop late (int (length (sleeps t))) t =
                wait_loop late (int (length (sleeps t)) + 1) ?t"
    using early
    by (subst wait_loop.simps) (simp add: get_status_late_early Connecting_not_Connected)
  have "length (sleeps ?t) + n = 21"
    using Suc.prems len by simp
  from Suc.IH [OF this, unfolded eq] show ?case
    unfolding step
    by (simp add: status_texts_append sleeps_append status_texts_def observed_Connecting
        replicate_app_Cons_same del: observed.simps(1))
qed

section \<open>Status classification\<close>

text \<open>
  C3. The test \<^verbatim>\<open>"Connected" in status\<close> that \<^verbatim>\<open>connect\<close> applies to a status text holds
  exactly when the text has \<^verbatim>\<open>Connected\<close> as a contiguous substring; and since
  \<^verbatim>\<open>get_status\<close> hands over the stripped stdout, the test on what it returns is the test on
  the raw stdout of the status command.
\<close>

theorem connected_iff_substring:
  "(contains (str ''Connected'') status
      \<longleftrightarrow> (\<exists>before after. status = before @ str ''Connected'' @ after))
   \<and> contains (str ''Connected'') (strip status) = contains (str ''Connected'') status"
proof
  show "contains (str ''Connected'') status
          \<longleftrightarrow> (\<exists>before after. status = before @ str ''Connected'' @ after)"
    by (simp add: contains_sublist sublist_def)
  show "contains (str ''Connected'') (strip status) = contains (str ''Connected'') status"
    by (rule contains_Connected_strip)
qed

theorem connected_iff_substring_witness:
  "(\<exists>before after. str ''Connected to se-got-wg-001'' = before @ str ''Connected'' @ after)
   \<and> \<not> (\<exists>before after. str ''Disconnected'' = before @ str ''Connected'' @ after)"
proof -
  have "contains (str ''Connected'') (str ''Connected to se-got-wg-001'')"
    by (simp add: str_def)
  moreover have "\<not> contains (str ''Connected'') (str ''Disconnected'')"
    by (simp add: str_def)
  ultimately show ?thesis
    using connected_iff_substring [of "str ''Connected to se-got-wg-001''"]
      connected_iff_substring [of "str ''Disconnected''"]
    by simp
qed

section \<open>Relay selection\<close>

text \<open>
  C4. \<^verbatim>\<open>set_relay_location\<close> starts one process. When \<^verbatim>\<open>server\<close> is set (a non-empty
  string, which is what \<^verbatim>\<open>if server:\<close> tests) the command line carries country, city and
  server in this order; when only \<^verbatim>\<open>city\<close> is set it carries country and city; when
  neither is set it carries the country alone.
\<close>

theorem set_relay_location_forms:
  "(truthy server \<longrightarrow>
      requests (snd (set_relay_location os country city server t)) =
        requests t @ [shell (str ''mullvad relay set location '' @ country @ str '' ''
                               @ fmt city @ str '' '' @ fmt server)])
   \<and> (\<not> truthy server \<and> truthy city \<longrightarrow>
      requests (snd (set_relay_location os country city server t)) =
        requests t @ [shell (str ''mullvad relay set location '' @ country @ str '' ''
                               @ fmt city)])
   \<and> (\<not> truthy server \<and> \<not> truthy city \<longrightarrow>
      requests (snd (set_relay_location os country city server t)) =
        requests t @ [shell (str ''mullvad relay set location '' @ country)])"
  by (simp add: set_relay_location_def run_command_trace requests_append)

theorem set_relay_location_forms_witness:
  "requests (snd (set_relay_location quiet (str ''se'') (Some (str ''got''))
                    (Some (str ''se-got-wg-001'')) []))
     = [shell (str ''mullvad relay set location se got se-got-wg-001'')]
   \<and> requests (snd (set_relay_location quiet (str ''se'') (Some (str ''got'')) None []))
     = [shell (str ''mullvad relay set location se got'')]
   \<and> requests (snd (set_relay_location quiet (str ''se'') None None []))
     = [shell (str ''mullvad relay set location se'')]"
  using set_relay_location_forms [of "Some (str ''se-got-wg-001'')" quiet "str ''se''"
          "Some (str ''got'')" "[]"]
    set_relay_location_forms [of None quiet "str ''se''" "Some (str ''got'')" "[]"]
    set_relay_location_forms [of None quiet "str ''se''" None "[]"]
  by (simp add: str_def)

text \<open>
  C5. A call that sets \<^verbatim>\<open>server\<close> and leaves \<^verbatim>\<open>city\<close> unset does not give the
  country-only command: the server branch formats the city as it is, so with
  \<^verbatim>\<open>city=None\<close> the command line carries the text \<^verbatim>\<open>None\<close> in the place of the city, and
  with an empty city it carries an empty place (two blanks).
\<close>

theorem server_without_city:
  "requests (snd (set_relay_location quiet (str ''se'') None (Some (str ''se-got-wg-001'')) []))
     = [shell (str ''mullvad relay set location se None se-got-wg-001'')]
   \<and> requests (snd (set_relay_location quiet (str ''se'') None (Some (str ''se-got-wg-001'')) []))
     \<noteq> [shell (str ''mullvad relay set location se'')]
   \<and> requests (snd (set_relay_location quiet (str ''se'') (Some []) (Some (str ''se-got-wg-001''))
                      []))
     = [shell (str ''mullvad relay set location se  se-got-wg-001'')]"
  by (simp add: set_relay_location_def run_command_trace shell_inject str_def)

section \<open>Running a command\<close>

text \<open>
  C6. Once the shell has run the command, \<^verbatim>\<open>run_command\<close> returns the decoded stdout
  and stderr whatever the exit status is: the result is computed from the two captured
  byte strings alone. The exit status never makes it raise (there is no
  \<^verbatim>\<open>CalledProcessError\<close>); the only exception after a launch is the decoder's, on
  output that is not UTF-8, and it too is the same for every exit status.
\<close>

theorem run_command_any_exit_status:
  assumes "os t (shell command) = Exited returncode out err"
  shows "(\<forall>stdout stderr. decode out = Some stdout \<and> decode err = Some stderr \<longrightarrow>
            run_command os command t =
              (Inr (stdout, stderr), t @ [Spawn (shell command) (Exited returncode out err)]))
         \<and> fst (run_command os command t) \<noteq> Inl CalledProcessError
         \<and> fst (run_command os command t) =
             (case decode out of
                None \<Rightarrow> Inl UnicodeDecodeError
              | Some a \<Rightarrow>
                  (case decode err of None \<Rightarrow> Inl UnicodeDecodeError | Some b \<Rightarrow> Inr (a, b)))"
  using assms by (simp add: run_command_def Let_def split: option.splits)

theorem run_command_any_exit_status_witness:
  "failing [] (shell (str ''mullvad connect'')) = Exited 1 [] (ascii ''Error: not logged in'')
   \<and> fst (run_command failing (str ''mullvad connect'') []) =
       Inr ([], str ''Error: not logged in'')"
proof -
  have h: "failing [] (shell (str ''mullvad connect'')) =
             Exited 1 [] (ascii ''Error: not logged in'')"
    by (simp add: failing_def)
  have d: "decode (ascii ''Error: not logged in'') = Some (str ''Error: not logged in'')"
    by (simp add: decode_def ascii_def str_def)
  show ?thesis
    using h d
      run_command_any_exit_status [of failing "[]" "str ''mullvad connect''" 1 "[]"
        "ascii ''Error: not logged in''"]
    by (simp add: decode_def)
qed

text \<open>
  C8, as the code has it. \<^verbatim>\<open>get_account_number\<close> starts the binary directly: when it
  cannot be launched the error leaves the method as an exception, after one attempt, and
  this differs from the case where the command ran and reported an error, which gives
  the value \<^verbatim>\<open>False\<close> after a printed message. \<^verbatim>\<open>run_command\<close> starts a shell: it
  raises, after one attempt, only when the shell itself cannot be launched; once the shell
  ran, whatever its exit status, no launch failure is reported.
\<close>

theorem spawn_failure_surfaces:
  "(os t account_query = LaunchFailed \<longrightarrow>
      get_account_number py os t = (Inl OSError, t @ [Spawn account_query LaunchFailed]))
   \<and> (\<forall>returncode out err stdout.
        os t account_query = Exited returncode out err \<and> returncode \<noteq> 0
        \<and> locale_decode py out = Some stdout \<longrightarrow>
        get_account_number py os t =
          (Inr PyFalse,
           t @ [Spawn account_query (Exited returncode out err),
                Print (str ''Mullvad VPN CLI tool not available.'')]))
   \<and> (os t (shell command) = LaunchFailed \<longrightarrow>
        run_command os command t = (Inl OSError, t @ [Spawn (shell command) LaunchFailed]))
   \<and> (\<forall>returncode out err.
        os t (shell command) = Exited returncode out err \<longrightarrow>
        fst (run_command os command t) \<noteq> Inl OSError
        \<and> snd (run_command os command t) =
            t @ [Spawn (shell command) (Exited returncode out err)])"
  by (auto simp add: get_account_number_def check_output_def run_command_def Let_def
      split: option.splits)

theorem spawn_failure_surfaces_witness:
  "get_account_number cpython no_mullvad [] = (Inl OSError, [Spawn account_query LaunchFailed])
   \<and> run_command no_shell (str ''mullvad connect'') [] =
       (Inl OSError, [Spawn (shell (str ''mullvad connect'')) LaunchFailed])"
proof -
  have a: "no_mullvad [] account_query = LaunchFailed"
    by (simp add: no_mullvad_def str_def)
  have b: "no_shell [] (shell (str ''mullvad connect'')) = LaunchFailed"
    by (simp add: no_shell_def)
  show ?thesis
    using a b spawn_failure_surfaces [of no_mullvad "[]" cpython "str ''mullvad connect''"]
      spawn_failure_surfaces [of no_shell "[]" cpython "str ''mullvad connect''"]
    by simp
qed

text \<open>
  With the binary missing and the shell present, \<^verbatim>\<open>disconnect\<close> returns an ordinary
  pair of texts: the shell's exit status 127 is dropped and its message is the stderr
  text.
\<close>

theorem spawn_failure_surfaces_counterexample:
  "no_mullvad [] account_query = LaunchFailed
   \<and> disconnect no_mullvad [] =
       (Inr ([], str ''/bin/sh: 1: mullvad: not found\<newline>''),
        [Spawn (shell (str ''mullvad disconnect''))
           (Exited 127 [] (ascii ''/bin/sh: 1: mullvad: not found\<newline>''))])"
  by (simp add: disconnect_def run_command_def shell_def str_def ascii_def decode_def
      no_mullvad_def)

section \<open>Disconnecting\<close>

text \<open>
  C9. \<^verbatim>\<open>disconnect\<close> starts exactly one process, the shell with
  \<^verbatim>\<open>mullvad disconnect\<close>, and returns what \<^verbatim>\<open>run_command\<close> returns for it. Nothing
  follows: no status query, no sleep.
\<close>

theorem disconnect_single_command:
  "snd (disconnect os t) =
     t @ [Spawn (shell (str ''mullvad disconnect''))
            (os t (shell (str ''mullvad disconnect'')))]
   \<and> disconnect os t = run_command os (str ''mullvad disconnect'') t
   \<and> requests (drop (length t) (snd (disconnect os t))) = [shell (str ''mullvad disconnect'')]
   \<and> sleeps (drop (length t) (snd (disconnect os t))) = []
   \<and> shell (str ''mullvad status'') \<notin> set (requests (drop (length t) (snd (disconnect os t))))
   \<and> shell (str ''mullvad status -v'') \<notin> set (requests (drop (length t) (snd (disconnect os t))))"
  by (simp add: disconnect_def run_command_trace shell_inject str_def)

theorem disconnect_single_command_witness:
  "disconnect (scripted [ascii ''Connected'']) [] =
     (Inr ([], []), [Spawn (shell (str ''mullvad disconnect'')) (Exited 0 [] [])])"
  using disconnect_single_command [of "scripted [ascii ''Connected'']" "[]"]
  by (simp add: run_command_def scripted_def shell_inject str_def decode_def)

section \<open>Connecting\<close>

text \<open>
  What the loop does on every host. \<^verbatim>\<open>connect\<close> returns \<^verbatim>\<open>True\<close> at the first poll whose
  text contains \<^verbatim>\<open>Connected\<close>, after as many sleeps of half a second as there were
  polls before it, at most 21; it returns \<^verbatim>\<open>False\<close> exactly after 22 polls none of which
  contains \<^verbatim>\<open>Connected\<close>, and 22 sleeps. An exception comes from \<^verbatim>\<open>run_command\<close>
  only.
\<close>

lemma connect_polls:
  assumes "connect os country city server t = (r, t')"
  shows "(r = Inr True \<longrightarrow>
            (\<exists>initial pre s. status_texts (drop (length t) t') = initial # pre @ [s]
               \<and> length pre \<le> 21 \<and> (\<forall>p\<in>set pre. \<not> contains (str ''Connected'') p)
               \<and> contains (str ''Connected'') s
               \<and> sleeps (drop (length t) t') = replicate (length pre) (1 / 2)))
       \<and> (r = Inr False \<longrightarrow>
            (\<exists>initial polls. status_texts (drop (length t) t') = initial # polls
               \<and> length polls = 22 \<and> (\<forall>p\<in>set polls. \<not> contains (str ''Connected'') p)
               \<and> sleeps (drop (length t) t') = replicate 22 (1 / 2)))
       \<and> (\<forall>e. r = Inl e \<longrightarrow>
            run_error e
            \<and> length (status_texts (drop (length t) t')) \<le> 22)"
proof -
  from connect_spec [OF assms] obtain new where
    new: "t' = t @ new" and
    sp: "(case fst (get_status os False t) of
        Inl e \<Rightarrow> r = Inl e \<and> run_error e
                   \<and> requests new = [status_query] \<and> status_texts new = [] \<and> sleeps new = []
      | Inr s0 \<Rightarrow>
          (\<exists>pre n. length pre \<le> 21 \<and> (\<forall>s\<in>set pre. \<not> contains (str ''Connected'') s)
             \<and> requests new =
                 status_query #
                   take n ((if contains (str ''Connected'') s0 then [disconnect_command] else [])
                            @ [shell (location_command country city server), connect_command]
                            @ replicate 22 status_query)
             \<and> 1 \<le> n
             \<and> ((\<exists>b. r = Inr b) \<longrightarrow> (if contains (str ''Connected'') s0 then 4 else 3) \<le> n)
             \<and> (case r of
                  Inr True \<Rightarrow>
                    (\<exists>s. status_texts new = s0 # pre @ [s] \<and> contains (str ''Connected'') s)
                    \<and> sleeps new = replicate (length pre) (1 / 2)
                | Inr False \<Rightarrow>
                    (\<exists>s. status_texts new = s0 # pre @ [s] \<and> \<not> contains (str ''Connected'') s)
                    \<and> length pre = 21
                    \<and> sleeps new = replicate (Suc (length pre)) (1 / 2)
                | Inl e \<Rightarrow>
                    status_texts new = s0 # pre \<and> sleeps new = replicate (length pre) (1 / 2)
                    \<and> run_error e)))"
    by blast
  have d: "drop (length t) t' = new"
    using new by simp
  have a: "r = Inr True \<longrightarrow>
            (\<exists>initial pre s. status_texts new = initial # pre @ [s]
               \<and> length pre \<le> 21 \<and> (\<forall>p\<in>set pre. \<not> contains (str ''Connected'') p)
               \<and> contains (str ''Connected'') s
               \<and> sleeps new = replicate (length pre) (1 / 2))"
    using sp by (cases "fst (get_status os False t)") auto
  have b: "r = Inr False \<longrightarrow>
            (\<exists>initial polls. status_texts new = initial # polls
               \<and> length polls = 22 \<and> (\<forall>p\<in>set polls. \<not> contains (str ''Connected'') p)
               \<and> sleeps new = replicate 22 (1 / 2))"
  proof
    assume f: "r = Inr False"
    then obtain s0 pre s where
      "status_texts new = s0 # pre @ [s]" "\<not> contains (str ''Connected'') s"
      "length pre = 21" "\<forall>p\<in>set pre. \<not> contains (str ''Connected'') p"
      "sleeps new = replicate (Suc (length pre)) (1 / 2)"
      using sp by (cases "fst (get_status os False t)") (auto simp add: replicate_22)
    then show "\<exists>initial polls. status_texts new = initial # polls
               \<and> length polls = 22 \<and> (\<forall>p\<in>set polls. \<not> contains (str ''Connected'') p)
               \<and> sleeps new = replicate 22 (1 / 2)"
      by (intro exI [of _ s0] exI [of _ "pre @ [s]"]) (auto simp add: replicate_22)
  qed
  have c: "\<forall>e. r = Inl e \<longrightarrow>
            run_error e \<and> length (status_texts new) \<le> 22"
    using sp by (cases "fst (get_status os False t)") auto
  show ?thesis
    unfolding d using a b c by blast
qed

text \<open>
  C1. \<^verbatim>\<open>connect\<close> does not give up after 21 polls. On the host \<open>late\<close> the initial
  status and the first 21 polls read \<^verbatim>\<open>Connecting\<close> and the 22nd poll, 10.5 seconds of
  sleep after the first, reads \<^verbatim>\<open>Connected\<close>: \<^verbatim>\<open>connect\<close> returns \<^verbatim>\<open>True\<close>. On the
  silent host, where the status never shows \<^verbatim>\<open>Connected\<close>, it returns \<^verbatim>\<open>False\<close> after
  22 sleeps, 11 seconds, where its docstring promises to wait up to 10.
\<close>

theorem connect_22nd_poll:
  "fst (connect late (str ''us'') None None []) = Inr True
   \<and> status_texts (snd (connect late (str ''us'') None None [])) =
       str ''Connecting'' # replicate 21 (str ''Connecting'') @ [str ''Connected'']
   \<and> \<not> contains (str ''Connected'') (str ''Connecting'')
   \<and> sleeps (snd (connect late (str ''us'') None None [])) = replicate 21 (1 / 2)
   \<and> sum_list (sleeps (snd (connect late (str ''us'') None None []))) = 21 / 2
   \<and> fst (connect quiet (str ''us'') None None []) = Inr False
   \<and> sleeps (snd (connect quiet (str ''us'') None None [])) = replicate 22 (1 / 2)
   \<and> sum_list (sleeps (snd (connect quiet (str ''us'') None None []))) = 11"
proof -
  let ?t = "[Spawn status_query (Exited 0 (ascii ''Connecting'') []),
             Spawn (shell (str ''mullvad relay set location us'')) (Exited 0 [] []),
             Spawn connect_command (Exited 0 [] [])]"
  have c: "connect late (str ''us'') None None [] = wait_loop late 0 ?t"
    by (simp add: connect_def get_status_late_early Connecting_not_Connected
        connect_new_location_def set_relay_location_def run_command_def late_def shell_inject
        decode_def str_def)
  have l: "observed (Spawn (shell (str ''mullvad relay set location us'')) (Exited 0 [] [])) = []"
    by (rule observed_other) (simp add: str_def)
  have s: "sleeps ?t = []" and o: "status_texts ?t = [str ''Connecting'']"
    by (simp_all add: status_texts_def observed_Connecting observed_other command_distinct l
        del: observed.simps(1))
  have "length (sleeps ?t) + 21 = 21"
    using s by simp
  from wait_loop_late [OF this]
  have a: "fst (connect late (str ''us'') None None []) = Inr True"
    and b: "status_texts (snd (connect late (str ''us'') None None [])) =
              str ''Connecting'' # replicate 21 (str ''Connecting'') @ [str ''Connected'']"
    and d: "sleeps (snd (connect late (str ''us'') None None [])) = replicate 21 (1 / 2)"
    unfolding c using s o by simp_all
  have q: "fst (connect quiet (str ''us'') None None []) = Inr False"
    by code_simp
  have "connect quiet (str ''us'') None None [] =
          (fst (connect quiet (str ''us'') None None []),
           snd (connect quiet (str ''us'') None None []))"
    by simp
  from connect_polls [OF this] q
  have e: "sleeps (snd (connect quiet (str ''us'') None None [])) = replicate 22 (1 / 2)"
    by auto
  show ?thesis
    using a b d q e Connecting_not_Connected by (simp add: sum_list_replicate)
qed

text \<open>
  C2. The processes \<^verbatim>\<open>connect\<close> starts, in order. When the initial status query returns a
  text containing \<^verbatim>\<open>Connected\<close>, the disconnect command comes directly after that query,
  and the sequence is a prefix of status, disconnect, set-location, connect, followed by
  the polls; it contains all of the first four whenever \<^verbatim>\<open>connect\<close> returns a value. In
  every other case no disconnect command is started, and the sequence is a prefix of
  status, set-location, connect, followed by the polls. (The sequence is cut short only
  by an exception from \<^verbatim>\<open>run_command\<close>.)
\<close>

theorem connect_command_order:
  assumes "connect os country city server t = (r, t')"
  shows "((\<exists>status. fst (get_status os False t) = Inr status
             \<and> contains (str ''Connected'') status) \<longrightarrow>
            prefix [status_query, disconnect_command] (requests (drop (length t) t'))
            \<and> prefix (requests (drop (length t) t'))
                ([status_query, disconnect_command,
                  shell (location_command country city server), connect_command]
                 @ replicate 22 status_query)
            \<and> ((\<exists>b. r = Inr b) \<longrightarrow>
                  prefix [status_query, disconnect_command,
                          shell (location_command country city server), connect_command]
                    (requests (drop (length t) t'))))
       \<and> (\<not> (\<exists>status. fst (get_status os False t) = Inr status
                 \<and> contains (str ''Connected'') status) \<longrightarrow>
            disconnect_command \<notin> set (requests (drop (length t) t'))
            \<and> prefix (requests (drop (length t) t'))
                ([status_query, shell (location_command country city server), connect_command]
                 @ replicate 22 status_query)
            \<and> ((\<exists>b. r = Inr b) \<longrightarrow>
                  prefix [status_query, shell (location_command country city server),
                          connect_command]
                    (requests (drop (length t) t'))))"
proof -
  let ?C = "str ''Connected''"
  let ?L = "shell (location_command country city server)"
  let ?rest = "[?L, connect_command] @ replicate 22 status_query"
  from connect_spec [OF assms] obtain new where
    new: "t' = t @ new" and
    sp: "(case fst (get_status os False t) of
        Inl e \<Rightarrow> r = Inl e \<and> run_error e
                   \<and> requests new = [status_query] \<and> status_texts new = [] \<and> sleeps new = []
      | Inr s0 \<Rightarrow>
          (\<exists>pre n. length pre \<le> 21 \<and> (\<forall>s\<in>set pre. \<not> contains (str ''Connected'') s)
             \<and> requests new =
                 status_query #
                   take n ((if contains (str ''Connected'') s0 then [disconnect_command] else [])
                            @ [shell (location_command country city server), connect_command]
                            @ replicate 22 status_query)
             \<and> 1 \<le> n
             \<and> ((\<exists>b. r = Inr b) \<longrightarrow> (if contains (str ''Connected'') s0 then 4 else 3) \<le> n)
             \<and> (case r of
                  Inr True \<Rightarrow>
                    (\<exists>s. status_texts new = s0 # pre @ [s] \<and> contains (str ''Connected'') s)
                    \<and> sleeps new = replicate (length pre) (1 / 2)
                | Inr False \<Rightarrow>
                    (\<exists>s. status_texts new = s0 # pre @ [s] \<and> \<not> contains (str ''Connected'') s)
                    \<and> length pre = 21
                    \<and> sleeps new = replicate (Suc (length pre)) (1 / 2)
                | Inl e \<Rightarrow>
                    status_texts new = s0 # pre \<and> sleeps new = replicate (length pre) (1 / 2)
                    \<and> run_error e)))"
    by blast
  have d: "drop (length t) t' = new"
    using new by simp
  have ne: "disconnect_command \<noteq> status_query" "disconnect_command \<noteq> ?L"
    "disconnect_command \<noteq> connect_command"
    using command_distinct location_command_distinct [of country city server]
    by (auto simp add: shell_inject)
  have notin: "\<And>n. disconnect_command \<notin> set (status_query # take n ?rest)"
  proof
    fix n
    assume "disconnect_command \<in> set (status_query # take n ?rest)"
    then have "disconnect_command \<in> set (status_query # ?rest)"
      by (auto dest: in_set_takeD)
    then show False
      using ne by auto
  qed
  show ?thesis
  proof (cases "fst (get_status os False t)")
    case (Inl e)
    then have "requests new = [status_query]" and "r = Inl e"
      using sp by simp_all
    then show ?thesis
      unfolding d using Inl ne by simp
  next
    case (Inr s0)
    then obtain n where
      rq: "requests new =
             status_query # take n ((if contains ?C s0 then [disconnect_command] else []) @ ?rest)"
      and n: "1 \<le> n" "(\<exists>b. r = Inr b) \<longrightarrow> (if contains ?C s0 then 4 else 3) \<le> n"
      using sp by auto
    show ?thesis
    proof (cases "contains ?C s0")
      case True
      have rq': "requests new = status_query # take n ([disconnect_command] @ ?rest)"
        using rq True by simp
      have p1: "prefix [status_query, disconnect_command] (requests new)"
        unfolding rq' using n(1) prefix_take_ge [of "[disconnect_command]" n ?rest] by simp
      have p2: "prefix (requests new) (status_query # [disconnect_command] @ ?rest)"
        unfolding rq' by (simp add: take_is_prefix)
      have p3: "(\<exists>b. r = Inr b) \<longrightarrow>
                  prefix [status_query, disconnect_command, ?L, connect_command] (requests new)"
      proof
        assume "\<exists>b. r = Inr b"
        then have "3 \<le> n" using n(2) True by simp
        then show "prefix [status_query, disconnect_command, ?L, connect_command] (requests new)"
          unfolding rq'
          using prefix_take_ge [of "[disconnect_command, ?L, connect_command]" n
              "replicate 22 status_query"]
          by simp
      qed
      show ?thesis
        unfolding d using Inr True p1 p2 p3 by simp
    next
      case False
      have rq': "requests new = status_query # take n ?rest"
        using rq False by simp
      have q1: "disconnect_command \<notin> set (requests new)"
        unfolding rq' by (rule notin)
      have q2: "prefix (requests new) (status_query # ?rest)"
        unfolding rq' by (simp add: take_is_prefix)
      have q3: "(\<exists>b. r = Inr b) \<longrightarrow>
                  prefix [status_query, ?L, connect_command] (requests new)"
      proof
        assume "\<exists>b. r = Inr b"
        then have "2 \<le> n" using n(2) False by simp
        then show "prefix [status_query, ?L, connect_command] (requests new)"
          unfolding rq'
          using prefix_take_ge [of "[?L, connect_command]" n "replicate 22 status_query"]
          by simp
      qed
      show ?thesis
        unfolding d using Inr False q1 q2 q3 by simp
    qed
  qed
qed

text \<open>A reconnection: connected at first, then connecting, then connected again.\<close>

theorem connect_command_order_witness:
  "requests (snd (connect reconnecting (str ''se'') (Some (str ''got'')) None [])) =
     [status_query, disconnect_command, shell (str ''mullvad relay set location se got''),
      connect_command, status_query, status_query]
   \<and> prefix [status_query, disconnect_command]
        (requests (snd (connect reconnecting (str ''se'') (Some (str ''got'')) None [])))"
proof -
  have a: "requests (snd (connect reconnecting (str ''se'') (Some (str ''got'')) None [])) =
     [status_query, disconnect_command, shell (str ''mullvad relay set location se got''),
      connect_command, status_query, status_query]"
    by (simp add: evals reconnecting_def)
  have b: "fst (get_status reconnecting False []) = Inr (str ''Connected'')"
    by (simp add: evals reconnecting_def)
  have c: "contains (str ''Connected'') (str ''Connected'')"
    by (rule Connected_Connected)
  have "connect reconnecting (str ''se'') (Some (str ''got'')) None [] =
          (fst (connect reconnecting (str ''se'') (Some (str ''got'')) None []),
           snd (connect reconnecting (str ''se'') (Some (str ''got'')) None []))"
    by simp
  from connect_command_order [OF this] a b c show ?thesis
    by auto
qed

text \<open>
  C10. Two runs of \<^verbatim>\<open>connect\<close> with the same selector, on any two hosts and histories,
  that observe the same sequence of status texts return the same boolean (and one returns
  a boolean exactly when the other does), whatever the disconnect, set-location and
  connect commands print.
\<close>

theorem connect_result_depends_on_status_only:
  assumes "connect os1 country city server t1 = (r1, u1)"
    and "connect os2 country city server t2 = (r2, u2)"
    and "status_texts (drop (length t1) u1) = status_texts (drop (length t2) u2)"
  shows "r1 = Inr b \<longleftrightarrow> r2 = Inr b"
  using connect_result_from_status [OF assms(1)] connect_result_from_status [OF assms(2)]
    assms(3)
  by (cases b) simp_all

text \<open>
  The hosts \<open>scripted\<close> and \<open>chatty\<close> give the same status texts and differ in the exit
  status, stdout and stderr of every other command.
\<close>

theorem connect_result_depends_on_status_only_witness:
  "fst (connect (scripted [ascii ''Connected'', ascii ''Connecting'', ascii ''Connected''])
          (str ''se'') None None []) = Inr True
   \<and> fst (connect (chatty [ascii ''Connected'', ascii ''Connecting'', ascii ''Connected''])
          (str ''se'') None None []) = Inr True"
proof -
  let ?s = "[ascii ''Connected'', ascii ''Connecting'', ascii ''Connected'']"
  let ?a = "connect (scripted ?s) (str ''se'') None None []"
  let ?b = "connect (chatty ?s) (str ''se'') None None []"
  have a: "fst ?a = Inr True"
    by (simp add: evals)
  have o: "status_texts (drop (length ([]::trace)) (snd ?a))
             = status_texts (drop (length ([]::trace)) (snd ?b))"
    by (simp add: evals)
  have "?a = (fst ?a, snd ?a)" and "?b = (fst ?b, snd ?b)"
    by simp_all
  from connect_result_depends_on_status_only [OF this o, of True] a show ?thesis
    by simp
qed

section \<open>The account number\<close>

text \<open>
  C7. When \<^verbatim>\<open>mullvad account get\<close> has run with exit status 0, so that there is a text
  to read: if the text starts with a line \<^verbatim>\<open>label: digits\<close> (no colon in the label),
  \<^verbatim>\<open>get_account_number\<close> returns the integer these digits denote; if the first line of the
  stripped text has no colon it raises \<^verbatim>\<open>IndexError\<close>; whatever value it returns is the
  integer read from the field after the first colon of that line, never a default; and
  the only exceptions of the parse are \<^verbatim>\<open>IndexError\<close> and \<^verbatim>\<open>ValueError\<close>.
\<close>

theorem get_account_number_parses:
  assumes "os t account_query = Exited 0 out err" and "locale_decode py out = Some stdout"
  shows "(\<forall>label ds tail.
            translate_newlines stdout = label @ str '': '' @ ds @ tail
            \<and> 10 \<notin> set label \<and> 58 \<notin> set label \<and> ds \<noteq> [] \<and> (\<forall>d\<in>set ds. is_digit d)
            \<and> length ds \<le> 640 \<and> (tail = [] \<or> hd tail = 10)
            \<longrightarrow> fst (get_account_number py os t) = Inr (PyInt (decimal_value ds)))
       \<and> (58 \<notin> set (takeWhile (\<lambda>c. c \<noteq> 10) (strip (translate_newlines stdout)))
            \<longrightarrow> fst (get_account_number py os t) = Inl IndexError)
       \<and> (\<forall>v. fst (get_account_number py os t) = Inr v \<longrightarrow>
            (\<exists>n label field more. v = PyInt n
               \<and> takeWhile (\<lambda>c. c \<noteq> 10) (strip (translate_newlines stdout)) =
                   label @ 58 # field @ more
               \<and> 58 \<notin> set label \<and> 58 \<notin> set field \<and> (more = [] \<or> hd more = 58)
               \<and> py_int py (strip field) = Inr n))
       \<and> (\<forall>e. fst (get_account_number py os t) = Inl e \<longrightarrow> e = IndexError \<or> e = ValueError)"
proof -
  let ?text = "translate_newlines stdout"
  have r: "fst (get_account_number py os t) =
           (case parse_account_output py ?text of Inl e \<Rightarrow> Inl e | Inr n \<Rightarrow> Inr (PyInt n))"
    using get_account_number_exit_0 [of os t out err py stdout] assms by simp
  have a: "\<forall>label ds tail.
            ?text = label @ str '': '' @ ds @ tail
            \<and> 10 \<notin> set label \<and> 58 \<notin> set label \<and> ds \<noteq> [] \<and> (\<forall>d\<in>set ds. is_digit d)
            \<and> length ds \<le> 640 \<and> (tail = [] \<or> hd tail = 10)
            \<longrightarrow> fst (get_account_number py os t) = Inr (PyInt (decimal_value ds))"
  proof (intro allI impI)
    fix label ds tail
    assume h: "?text = label @ str '': '' @ ds @ tail
            \<and> 10 \<notin> set label \<and> 58 \<notin> set label \<and> ds \<noteq> [] \<and> (\<forall>d\<in>set ds. is_digit d)
            \<and> length ds \<le> 640 \<and> (tail = [] \<or> hd tail = 10)"
    then have t: "?text = label @ 58 # 32 # ds @ tail"
      by (simp add: str_def)
    have "parse_account_output py (label @ 58 # 32 # ds @ tail) = Inr (decimal_value ds)"
      using h by (intro parse_account_text) simp_all
    then show "fst (get_account_number py os t) = Inr (PyInt (decimal_value ds))"
      using r t by simp
  qed
  have b: "58 \<notin> set (takeWhile (\<lambda>c. c \<noteq> 10) (strip ?text))
            \<longrightarrow> fst (get_account_number py os t) = Inl IndexError"
    using r parse_account_no_colon [of ?text py] by simp
  have c: "\<forall>v. fst (get_account_number py os t) = Inr v \<longrightarrow>
            (\<exists>n label field more. v = PyInt n
               \<and> takeWhile (\<lambda>c. c \<noteq> 10) (strip ?text) = label @ 58 # field @ more
               \<and> 58 \<notin> set label \<and> 58 \<notin> set field \<and> (more = [] \<or> hd more = 58)
               \<and> py_int py (strip field) = Inr n)"
  proof (intro allI impI)
    fix v
    assume "fst (get_account_number py os t) = Inr v"
    then obtain n where v: "v = PyInt n" and p: "parse_account_output py ?text = Inr n"
      using r by (auto split: sum.splits)
    from parse_account_value [OF p] show "\<exists>n label field more. v = PyInt n
               \<and> takeWhile (\<lambda>c. c \<noteq> 10) (strip ?text) = label @ 58 # field @ more
               \<and> 58 \<notin> set label \<and> 58 \<notin> set field \<and> (more = [] \<or> hd more = 58)
               \<and> py_int py (strip field) = Inr n"
      using v by blast
  qed
  have d: "\<forall>e. fst (get_account_number py os t) = Inl e \<longrightarrow> e = IndexError \<or> e = ValueError"
    using r parse_account_exn [of py ?text] by (auto split: sum.splits)
  show ?thesis
    using a b c d by blast
qed

text \<open>
  The account report \<^verbatim>\<open>Account: 1234567890123\<close>, followed by a line with the expiry,
  gives 1234567890123; a report without a colon fails.
\<close>

theorem get_account_number_parses_witness:
  "fst (get_account_number cpython logged_in []) = Inr (PyInt 1234567890123)
   \<and> fst (get_account_number cpython no_account []) = Inl IndexError"
proof -
  let ?out = "ascii ''Account: 1234567890123\<newline>Expires: 2030-01-01''"
  let ?text = "str ''Account: 1234567890123\<newline>Expires: 2030-01-01''"
  have h1: "logged_in [] account_query = Exited 0 ?out []"
    by (simp add: logged_in_def)
  have h2: "locale_decode cpython ?out = Some ?text"
    by (simp add: cpython_def decode_def ascii_def str_def)
  have n: "translate_newlines ?text = ?text"
    by (simp add: str_def)
  have shape: "translate_newlines ?text =
                 str ''Account'' @ str '': '' @ str ''1234567890123''
                   @ str ''\<newline>Expires: 2030-01-01''
               \<and> 10 \<notin> set (str ''Account'') \<and> 58 \<notin> set (str ''Account'')
               \<and> str ''1234567890123'' \<noteq> [] \<and> (\<forall>d\<in>set (str ''1234567890123''). is_digit d)
               \<and> length (str ''1234567890123'') \<le> 640
               \<and> (str ''\<newline>Expires: 2030-01-01'' = [] \<or> hd (str ''\<newline>Expires: 2030-01-01'') = 10)"
    unfolding n by (simp add: str_def is_digit_def)
  have v: "decimal_value (str ''1234567890123'') = 1234567890123"
    by (simp add: decimal_value_def str_def)
  have g1: "no_account [] account_query = Exited 0 (ascii ''No account'') []"
    by (simp add: no_account_def)
  have g2: "locale_decode cpython (ascii ''No account'') = Some (str ''No account'')"
    by (simp add: cpython_def decode_def ascii_def str_def)
  have g3: "58 \<notin> set (takeWhile (\<lambda>c. c \<noteq> 10) (strip (translate_newlines (str ''No account''))))"
    by (simp add: str_def strip_def isspace_def)
  show ?thesis
    using get_account_number_parses [of logged_in "[]" ?out "[]" cpython ?text]
      get_account_number_parses [of no_account "[]" "ascii ''No account''" "[]" cpython
        "str ''No account''"]
      h1 h2 g1 g2 shape v g3
    by metis
qed

end
